theory Spec2Isabelle
  imports Complex_Main "HOL-Library.AList"
begin

section \<open>Python values and exceptions\<close>

text \<open>
  The exceptions that the modelled fragment of \<^verbatim>\<open>graper/network/downloader.py\<close> can
  raise by itself.  \<open>Exception msg\<close> is a plain \<^verbatim>\<open>raise Exception(msg)\<close>, \<open>ResponseError\<close>
  is the error of the Redis client for a command the server rejects, and the others
  are the built-in exceptions of the same name.  All of them derive from Python's
  \<^verbatim>\<open>Exception\<close>, so an \<^verbatim>\<open>except Exception\<close> clause catches every value of this type.
\<close>

datatype exn = IndexError | AttributeError | TypeError | ValueError | KeyError
  | AssertionError | ResponseError | Exception string

text \<open>
  The Python values that occur as request fields and keyword arguments.  A \<^verbatim>\<open>dict\<close>
  with string keys is a map; \<open>VObj n\<close> is an opaque object (a client session, a
  certificate, ...) identified by \<open>n\<close>.
\<close>

datatype pyval = VNone | VBool bool | VInt int | VFloat real | VStr string
  | VDict "string \<Rightarrow> pyval option" | VObj nat

text \<open>Truth value testing, as \<^verbatim>\<open>if x:\<close> does it.\<close>

fun truthy :: "pyval \<Rightarrow> bool" where
  "truthy VNone = False"
| "truthy (VBool b) = b"
| "truthy (VInt i) = (i \<noteq> 0)"
| "truthy (VFloat r) = (r \<noteq> 0)"
| "truthy (VStr s) = (s \<noteq> [])"
| "truthy (VDict d) = (d \<noteq> Map.empty)"
| "truthy (VObj n) = True"

section \<open>CookiePool: a bounded in-memory pool\<close>

text \<open>
  \<^verbatim>\<open>collections.deque(maxlen=n)\<close>: the items from left (oldest) to right (newest) and the
  fixed bound.  \<^verbatim>\<open>append\<close> adds on the right and, when the bound is exceeded, drops the
  leftmost item; \<^verbatim>\<open>pop\<close> removes the rightmost item and raises \<^verbatim>\<open>IndexError\<close> on an
  empty deque.
\<close>

record 'a deque =
  items :: "'a list"
  maxlen :: nat

definition deque_append :: "'a deque \<Rightarrow> 'a \<Rightarrow> 'a deque" where
  "deque_append d x =
     (let ys = items d @ [x]
      in if maxlen d < length ys then d\<lparr>items := tl ys\<rparr> else d\<lparr>items := ys\<rparr>)"

definition deque_pop :: "'a deque \<Rightarrow> exn + ('a \<times> 'a deque)" where
  "deque_pop d =
     (case items d of
        [] \<Rightarrow> Inl IndexError
      | _ # _ \<Rightarrow> Inr (last (items d), d\<lparr>items := butlast (items d)\<rparr>))"

record 'a CookiePool =
  cookie_list :: "'a deque"

text \<open>\<^verbatim>\<open>CookiePool.__init__\<close>: \<^verbatim>\<open>self.cookie_list = deque(maxlen=10000)\<close>.\<close>

definition CookiePool_init :: "'a CookiePool" where
  "CookiePool_init = \<lparr>cookie_list = \<lparr>items = [], maxlen = 10000\<rparr>\<rparr>"

text \<open>
  \<^verbatim>\<open>CookiePool.get\<close>: pop inside \<^verbatim>\<open>try\<close>, any exception gives \<^verbatim>\<open>None\<close>.  The result
  \<open>None\<close> is Python's \<^verbatim>\<open>None\<close>.
\<close>

definition CookiePool_get :: "'a CookiePool \<Rightarrow> 'a option \<times> 'a CookiePool" where
  "CookiePool_get self =
     (case deque_pop (cookie_list self) of
        Inl e \<Rightarrow> (None, self)
      | Inr (r, d) \<Rightarrow> (Some r, self\<lparr>cookie_list := d\<rparr>))"

definition CookiePool_add :: "'a CookiePool \<Rightarrow> 'a \<Rightarrow> 'a CookiePool" where
  "CookiePool_add self cookies = self\<lparr>cookie_list := deque_append (cookie_list self) cookies\<rparr>"

definition CookiePool_len :: "'a CookiePool \<Rightarrow> nat" where
  "CookiePool_len self = length (items (cookie_list self))"

text \<open>A client's use of a pool: a sequence of \<^verbatim>\<open>add\<close> and \<^verbatim>\<open>get\<close> calls; the replies
  of the \<^verbatim>\<open>get\<close> calls are collected in order.\<close>

datatype 'a pool_op = Add 'a | Get

fun pool_run :: "'a pool_op list \<Rightarrow> 'a CookiePool \<Rightarrow> 'a option list \<times> 'a CookiePool" where
  "pool_run [] p = ([], p)"
| "pool_run (Add x # ops) p = pool_run ops (CookiePool_add p x)"
| "pool_run (Get # ops) p =
     (let (r, p') = CookiePool_get p; (rs, p'') = pool_run ops p' in (r # rs, p''))"

definition add_all :: "'a CookiePool \<Rightarrow> 'a list \<Rightarrow> 'a CookiePool" where
  "add_all p xs = foldl CookiePool_add p xs"

text \<open>The representation invariant of a pool: the bound is the one set by the
  constructor and is respected.\<close>

definition pool_inv :: "'a CookiePool \<Rightarrow> bool" where
  "pool_inv p = (maxlen (cookie_list p) = 10000 \<and> CookiePool_len p \<le> 10000)"

section \<open>Requests and the scheme flip\<close>

text \<open>A request is a URL string or a \<^verbatim>\<open>dict\<close> of request fields.\<close>

datatype request = Url string | Structured "string \<Rightarrow> pyval option"

definition startswith :: "string \<Rightarrow> string \<Rightarrow> bool" where
  "startswith s p = (take (length p) s = p)"

text \<open>\<^verbatim>\<open>dict.get(key)\<close>: the value, or \<^verbatim>\<open>None\<close> for a missing key.\<close>

definition dict_get :: "(string \<Rightarrow> pyval option) \<Rightarrow> string \<Rightarrow> pyval" where
  "dict_get d k = (case d k of None \<Rightarrow> VNone | Some v \<Rightarrow> v)"

text \<open>
  \<^verbatim>\<open>Downloader.convert_http_protocol\<close>.  Only a \<^verbatim>\<open>str\<close> has \<^verbatim>\<open>startswith\<close>: for any other
  value of \<^verbatim>\<open>url\<close> (in particular \<^verbatim>\<open>None\<close>, when the dict has no \<^verbatim>\<open>"url"\<close>) the call
  \<^verbatim>\<open>url.startswith\<close> raises \<^verbatim>\<open>AttributeError\<close>.  The compared prefixes are ASCII, so
  the slices \<^verbatim>\<open>url[5:]\<close> and \<^verbatim>\<open>url[4:]\<close> cut at the same place in the string of
  characters and in its encoding.
\<close>

definition convert_http_protocol :: "request \<Rightarrow> exn + request" where
  "convert_http_protocol request =
     (case (case request of Structured d \<Rightarrow> dict_get d ''url'' | Url u \<Rightarrow> VStr u) of
        VStr url \<Rightarrow>
          (let url' = (if startswith url ''https'' then ''http'' @ drop 5 url
                       else if startswith url ''http:'' then ''https'' @ drop 4 url
                       else url)
           in Inr (case request of
                     Structured d \<Rightarrow> Structured (d(''url'' \<mapsto> VStr url'))
                   | Url _ \<Rightarrow> Url url'))
      | _ \<Rightarrow> Inl AttributeError)"

section \<open>The Downloader\<close>

type_synonym kwargs = "string \<Rightarrow> pyval option"

text \<open>
  The pools are objects of classes that live outside this file (or are duck-typed), and
  \<^verbatim>\<open>prepare_request\<close> calls \<^verbatim>\<open>get()\<close> on each at most once.  A pool is therefore given by
  the reply of that call: \<open>None\<close> stands for a pool that is absent (\<^verbatim>\<open>None\<close>, or falsy
  where the source tests truthiness), \<open>Some v\<close> for a pool whose \<^verbatim>\<open>get()\<close> returns \<open>v\<close>.
  The proxy pool always exists; \<open>proxy_pool\<close> is the reply of its \<^verbatim>\<open>get()\<close>.
  \<^verbatim>\<open>util.format_headers\<close> is not part of this file and is a parameter,
  \<open>format_headers_fn\<close>.  \<open>session_cookie\<close> is the \<^verbatim>\<open>Cookie\<close> header of the shared session
  (empty when it has none) and \<open>object_cookie n\<close> that of the client object \<open>VObj n\<close>.
\<close>

record Downloader =
  http2 :: bool
  timeout :: pyval
  proxy_enable :: bool
  proxy_pool :: pyval
  user_agent_pool :: "pyval option"
  cookie_pool :: "pyval option"
  referer_pool :: "pyval option"
  show_error_log :: bool
  show_fail_log :: bool
  use_session :: bool
  stream :: bool
  use_default_headers :: bool
  format_headers :: bool
  custom_headers :: kwargs
  format_headers_fn :: "kwargs \<Rightarrow> kwargs"
  session_cookie :: string
  object_cookie :: "nat \<Rightarrow> string"

text \<open>The calls made to the pools, in order.\<close>

datatype pool_call = UserAgentGet | CookieGet | RefererGet | ProxyGet

text \<open>The property \<^verbatim>\<open>default_headers\<close>.\<close>

definition default_headers :: "Downloader \<Rightarrow> pool_call list \<times> kwargs" where
  "default_headers self =
     (let (t, ua) = (case user_agent_pool self of
                       None \<Rightarrow> ([], VStr [])
                     | Some v \<Rightarrow> ([UserAgentGet], v));
          headers = [''User-Agent'' \<mapsto> ua,
                     ''Accept'' \<mapsto> VStr ''*/*'',
                     ''Accept-Encoding'' \<mapsto> VStr ''gzip, deflate'',
                     ''Connection'' \<mapsto> VStr ''keep-alive'']
      in (t, headers ++ custom_headers self))"

text \<open>
  \<^verbatim>\<open>d.update(v)\<close> for a truthy \<open>v\<close>: a dict is merged over \<open>d\<close>; a non-empty string is
  iterated character by character and each element has length 1 where 2 is required
  (\<^verbatim>\<open>ValueError\<close>); the other values are not iterable (\<^verbatim>\<open>TypeError\<close>).
\<close>

definition dict_update :: "kwargs \<Rightarrow> pyval \<Rightarrow> exn + kwargs" where
  "dict_update d v =
     (case v of VDict h \<Rightarrow> Inr (d ++ h) | VStr s \<Rightarrow> Inl ValueError | _ \<Rightarrow> Inl TypeError)"

text \<open>String operations used on the cookie header.\<close>

fun split_on :: "char \<Rightarrow> string \<Rightarrow> string list" where
  "split_on c [] = [[]]"
| "split_on c (x # xs) =
     (if x = c then [] # split_on c xs
      else (case split_on c xs of [] \<Rightarrow> [[x]] | y # ys \<Rightarrow> (x # y) # ys))"

text \<open>\<^verbatim>\<open>x.split("=", maxsplit=1)\<close>: one or two pieces.\<close>

definition split_eq1 :: "string \<Rightarrow> string list" where
  "split_eq1 x =
     (if CHR ''='' \<in> set x
      then [takeWhile (\<lambda>c. c \<noteq> CHR ''='') x, tl (dropWhile (\<lambda>c. c \<noteq> CHR ''='') x)]
      else [x])"

text \<open>The ASCII characters for which \<^verbatim>\<open>str.isspace\<close> holds; \<^verbatim>\<open>x.strip()\<close> is truthy
  iff \<open>x\<close> has a character that is not white space.\<close>

definition is_space :: "char \<Rightarrow> bool" where
  "is_space c = ((of_char c :: nat) \<in> {9, 10, 11, 12, 13, 28, 29, 30, 31, 32})"

definition strip_truthy :: "string \<Rightarrow> bool" where
  "strip_truthy x = (\<exists>c \<in> set x. \<not> is_space c)"

text \<open>\<^verbatim>\<open>dict([...])\<close> of a list of split pieces: every element must have length 2, and a
  later pair overrides an earlier one with the same key.\<close>

fun dict_of_pairs :: "string list list \<Rightarrow> exn + kwargs" where
  "dict_of_pairs [] = Inr Map.empty"
| "dict_of_pairs (p # ps) =
     (case p of
        [k, v] \<Rightarrow> (case dict_of_pairs ps of
                     Inl e \<Rightarrow> Inl e
                   | Inr m \<Rightarrow> Inr ([k \<mapsto> VStr v] ++ m))
      | _ \<Rightarrow> Inl ValueError)"

definition parse_cookies :: "string \<Rightarrow> exn + kwargs" where
  "parse_cookies cookies_str =
     dict_of_pairs (map split_eq1 (filter strip_truthy (split_on CHR '';'' cookies_str)))"

text \<open>
  The block of \<^verbatim>\<open>prepare_request\<close> under \<^verbatim>\<open>if "cookies" not in kwargs\<close>: the \<^verbatim>\<open>Cookie\<close>
  header just built, a semicolon and the \<^verbatim>\<open>Cookie\<close> header of \<^verbatim>\<open>_session or self.session\<close>
  are concatenated (\<^verbatim>\<open>+=\<close> on a value that is not a string raises \<^verbatim>\<open>TypeError\<close>, the
  attribute \<^verbatim>\<open>headers\<close> of a truthy value that is not a client raises
  \<^verbatim>\<open>AttributeError\<close>), parsed, and overlaid with the cookie dict taken from the pool.
\<close>

definition cookies_from_headers :: "Downloader \<Rightarrow> kwargs \<Rightarrow> pyval \<Rightarrow> kwargs \<Rightarrow> exn + pyval" where
  "cookies_from_headers self kwargs session0 cookies0 =
     (case (case dict_get (case dict_get kwargs ''headers'' of
                             VDict h \<Rightarrow> h | _ \<Rightarrow> Map.empty) ''Cookie'' of
              VNone \<Rightarrow> Inr [] | VStr s \<Rightarrow> Inr s | _ \<Rightarrow> Inl TypeError) of
        Inl e \<Rightarrow> Inl e
      | Inr cookies_str \<Rightarrow>
         (case (if truthy session0
                then (case session0 of
                        VObj n \<Rightarrow> Inr (object_cookie self n)
                      | _ \<Rightarrow> Inl AttributeError)
                else Inr (session_cookie self)) of
            Inl e \<Rightarrow> Inl e
          | Inr sc \<Rightarrow>
             (case parse_cookies (cookies_str @ '';'' @ sc) of
                Inl e \<Rightarrow> Inl e
              | Inr parsed \<Rightarrow> Inr (VDict (parsed ++ cookies0)))))"

text \<open>
  The first blocks of \<^verbatim>\<open>prepare_request\<close>, which depend on the Downloader only: the
  default headers (if enabled), the cookie taken from the cookie pool (a dict goes to
  \<^verbatim>\<open>_cookies\<close>, any other truthy value to the \<^verbatim>\<open>Cookie\<close> header) and the referer taken
  from the referer pool.  The result is the pool calls made, \<^verbatim>\<open>_cookies\<close> and
  \<^verbatim>\<open>default_headers\<close>.  The local names \<^verbatim>\<open>_cookie\<close>, \<^verbatim>\<open>_cookies\<close>, \<^verbatim>\<open>_referer\<close> and
  \<^verbatim>\<open>_session\<close> are written \<open>cookie0\<close>, \<open>cookies0\<close>, \<open>referer0\<close> and \<open>session0\<close>, and
  \<^verbatim>\<open>default_headers\<close> is \<open>dh\<close>.
\<close>

definition pool_headers :: "Downloader \<Rightarrow> pool_call list \<times> kwargs \<times> kwargs" where
  "pool_headers self =
     (let (t1, dh) = (if use_default_headers self then default_headers self else ([], Map.empty));
          (t2, cookies0, dh) =
             (case cookie_pool self of
                None \<Rightarrow> ([], Map.empty, dh)
              | Some cookie0 \<Rightarrow>
                  ([CookieGet],
                   if truthy cookie0
                   then (case cookie0 of
                           VDict c \<Rightarrow> (c, dh)
                         | _ \<Rightarrow> (Map.empty, dh(''Cookie'' \<mapsto> cookie0)))
                   else (Map.empty, dh)));
          (t3, dh) = (case referer_pool self of
                        None \<Rightarrow> ([], dh)
                      | Some referer0 \<Rightarrow> ([RefererGet], dh(''Referer'' \<mapsto> referer0)))
      in (t1 @ t2 @ t3, cookies0, dh))"

text \<open>
  The block of \<^verbatim>\<open>prepare_request\<close> that pops \<^verbatim>\<open>headers\<close> from the keyword arguments,
  lays a truthy value over the default headers and stores the result, formatted by
  \<^verbatim>\<open>util.format_headers\<close> when \<^verbatim>\<open>self.format_headers\<close> is set.
\<close>

definition merge_headers :: "Downloader \<Rightarrow> kwargs \<Rightarrow> kwargs \<Rightarrow> exn + kwargs" where
  "merge_headers self dh kwargs0 =
     (let headers = (case kwargs0 ''headers'' of None \<Rightarrow> VDict Map.empty | Some h \<Rightarrow> h);
          kwargs = kwargs0(''headers'' := None)
      in case (if truthy headers then dict_update dh headers else Inr dh) of
           Inl e \<Rightarrow> Inl e
         | Inr dh \<Rightarrow>
             Inr (kwargs(''headers'' \<mapsto>
                    VDict (if format_headers self then format_headers_fn self dh else dh))))"

text \<open>\<^verbatim>\<open>if k not in kwargs: kwargs[k] = v\<close>.\<close>

definition set_if_absent :: "kwargs \<Rightarrow> string \<Rightarrow> pyval \<Rightarrow> kwargs" where
  "set_if_absent kwargs k v = (if kwargs k = None then kwargs(k \<mapsto> v) else kwargs)"

text \<open>
  The blocks of \<^verbatim>\<open>prepare_request\<close> on \<^verbatim>\<open>verify\<close> and \<^verbatim>\<open>proxies\<close>: \<^verbatim>\<open>verify\<close> defaults to
  \<^verbatim>\<open>False\<close>; without a key \<^verbatim>\<open>proxies\<close> and with \<^verbatim>\<open>proxy_enable\<close>, the proxy pool is asked,
  and a falsy reply raises.
\<close>

definition resolve_proxies :: "Downloader \<Rightarrow> kwargs \<Rightarrow> pool_call list \<times> (exn + kwargs)" where
  "resolve_proxies self kwargs0 =
     (let kwargs = set_if_absent kwargs0 ''verify'' (VBool False)
      in if kwargs ''proxies'' = None
         then (if proxy_enable self
               then (let kwargs = kwargs(''proxies'' \<mapsto> proxy_pool self)
                     in if \<not> truthy (dict_get kwargs ''proxies'')
                        then ([ProxyGet], Inl (Exception ''no valid proxy''))
                        else ([ProxyGet], Inr kwargs))
               else ([], Inr kwargs))
         else ([], Inr kwargs))"

text \<open>
  The rest of \<^verbatim>\<open>prepare_request\<close>, from the defaults of \<^verbatim>\<open>stream\<close> and \<^verbatim>\<open>timeout\<close> to the
  returned tuple \<^verbatim>\<open>(_session, method, url, kwargs)\<close>.
\<close>

definition finish_request ::
  "Downloader \<Rightarrow> pyval \<Rightarrow> pyval \<Rightarrow> kwargs \<Rightarrow> kwargs \<Rightarrow> exn + pyval \<times> pyval \<times> pyval \<times> kwargs" where
  "finish_request self method0 url cookies0 kwargs0 =
     (let kwargs = set_if_absent kwargs0 ''stream'' (VBool (stream self));
          kwargs = set_if_absent kwargs ''timeout'' (timeout self);
          session0 = dict_get kwargs ''session'';
          kwargs = kwargs(''session'' := None)
      in case (if kwargs ''cookies'' = None
               then cookies_from_headers self kwargs session0 cookies0
               else Inr (dict_get kwargs ''cookies'')) of
           Inl e \<Rightarrow> Inl e
         | Inr c \<Rightarrow>
            (let kwargs = kwargs(''cookies'' \<mapsto> c);
                 method = (if (kwargs ''data'' \<noteq> None \<or> kwargs ''json'' \<noteq> None)
                              \<and> method0 = VStr ''GET''
                           then VStr ''POST'' else method0);
                 kwargs = kwargs(''url'' := None, ''method'' := None)
             in Inr (session0, method, url, kwargs)))"

text \<open>
  The keyword arguments after \<^verbatim>\<open>kwargs.update(request)\<close>, which is done for a dict
  request only: the fields of the request are laid over the keyword arguments.
\<close>

definition merged_kwargs :: "request \<Rightarrow> kwargs \<Rightarrow> kwargs" where
  "merged_kwargs request kwargs0 =
     (case request of Structured d \<Rightarrow> kwargs0 ++ d | Url u \<Rightarrow> kwargs0)"

text \<open>The \<^verbatim>\<open>headers\<close> option is absent, falsy or a dict: the values on which
  \<^verbatim>\<open>default_headers.update(headers)\<close> does not raise.\<close>

definition headers_ok :: "kwargs \<Rightarrow> bool" where
  "headers_ok kw =
     (case kw ''headers'' of None \<Rightarrow> True | Some v \<Rightarrow> \<not> truthy v \<or> (\<exists>h. v = VDict h))"

text \<open>
  \<^verbatim>\<open>Downloader.prepare_request\<close>, block by block.  The result is the list of pool calls
  made and either the exception raised or the tuple \<^verbatim>\<open>(_session, method, url, kwargs)\<close>.
\<close>

definition prepare_request ::
  "Downloader \<Rightarrow> request \<Rightarrow> kwargs \<Rightarrow>
     pool_call list \<times> (exn + pyval \<times> pyval \<times> pyval \<times> kwargs)" where
  "prepare_request self request kwargs0 =
     (let url = (case request of Structured d \<Rightarrow> dict_get d ''url'' | Url u \<Rightarrow> VStr u);
          kwargs = merged_kwargs request kwargs0;
          method = (case kwargs ''method'' of None \<Rightarrow> VStr ''GET'' | Some m \<Rightarrow> m);
          (t, cookies0, dh) = pool_headers self
      in case merge_headers self dh kwargs of
           Inl e \<Rightarrow> (t, Inl e)
         | Inr kwargs \<Rightarrow>
            (case resolve_proxies self kwargs of
               (t4, Inl e) \<Rightarrow> (t @ t4, Inl e)
             | (t4, Inr kwargs) \<Rightarrow> (t @ t4, finish_request self method url cookies0 kwargs)))"

text \<open>\<^verbatim>\<open>sub in s\<close> on strings, and the test for a suffix.\<close>

fun contains :: "string \<Rightarrow> string \<Rightarrow> bool" where
  "contains sub [] = (sub = [])"
| "contains sub (x # xs) = (startswith (x # xs) sub \<or> contains sub xs)"

definition endswith :: "string \<Rightarrow> string \<Rightarrow> bool" where
  "endswith s p = (length p \<le> length s \<and> drop (length s - length p) s = p)"

text \<open>
  The dict comprehension of \<^verbatim>\<open>_download_by_httpx\<close> that rewrites the keys of
  \<^verbatim>\<open>proxies\<close>: a key with \<^verbatim>\<open>://\<close> is kept, any other key \<open>k\<close> becomes \<open>k://\<close>.  The new
  dict has an entry at \<open>k'\<close> when \<open>k'\<close> was such a key or \<open>k'\<close> is \<open>k://\<close> for a key \<open>k\<close>
  without \<^verbatim>\<open>://\<close>.  When both are keys, Python keeps the one inserted later; a map does
  not record the order of insertion, and the entry of the key \<open>k'\<close> itself is kept here.
\<close>

definition normalize_proxies :: "kwargs \<Rightarrow> kwargs" where
  "normalize_proxies p k' =
     (if contains ''://'' k'
      then (case p k' of
              Some v \<Rightarrow> Some v
            | None \<Rightarrow>
                (let k = take (length k' - 3) k'
                 in if endswith k' ''://'' \<and> \<not> contains ''://'' k then p k else None))
      else None)"

text \<open>
  The client that executes a request: a fresh client made by \<^verbatim>\<open>make_httpx_client\<close> from
  proxies, verify and cert, the session passed by the caller, the Downloader's shared
  session \<^verbatim>\<open>self.session\<close>, or the module \<^verbatim>\<open>httpx\<close> itself.
\<close>

datatype client = Fresh pyval pyval pyval | Session pyval | Shared | HttpxModule

text \<open>
  The call made on the client: \<^verbatim>\<open>session.request(method, url, **kwargs)\<close>, or
  \<^verbatim>\<open>session.build_request(method, url, ...)\<close> followed by \<^verbatim>\<open>session.send\<close> with
  \<^verbatim>\<open>auth\<close> and \<^verbatim>\<open>follow_redirects\<close>.
\<close>

datatype http_call =
    Request client pyval pyval kwargs
  | StreamSend client pyval pyval kwargs pyval pyval

text \<open>The client on which a call is made.\<close>

fun client_of :: "http_call \<Rightarrow> client" where
  "client_of (Request c m u k) = c"
| "client_of (StreamSend c m u k a f) = c"

definition build_request_keys :: "string list" where
  "build_request_keys =
     [''content'', ''data'', ''files'', ''json'', ''params'', ''headers'', ''cookies'', ''timeout'']"

text \<open>
  \<^verbatim>\<open>Downloader._download_by_httpx\<close>, up to the call on the chosen client: the exception
  raised before it, or the call.  \<^verbatim>\<open>kwargs.pop("stream")\<close> and \<^verbatim>\<open>kwargs.pop("verify")\<close>
  have no default and raise \<^verbatim>\<open>KeyError\<close> on a missing key; \<^verbatim>\<open>proxies.items()\<close> raises
  \<^verbatim>\<open>AttributeError\<close> on a value that is not a dict.
\<close>

definition download_by_httpx ::
  "Downloader \<Rightarrow> pyval \<Rightarrow> pyval \<Rightarrow> pyval \<Rightarrow> kwargs \<Rightarrow> exn + http_call" where
  "download_by_httpx self method url session kwargs0 =
     (case kwargs0 ''stream'' of
        None \<Rightarrow> Inl KeyError
      | Some stream0 \<Rightarrow>
         (let kwargs = kwargs0(''stream'' := None);
              proxies = dict_get kwargs ''proxies'';
              kwargs = kwargs(''proxies'' := None)
          in case kwargs ''verify'' of
               None \<Rightarrow> Inl KeyError
             | Some verify \<Rightarrow>
                (let kwargs = kwargs(''verify'' := None);
                     cert = dict_get kwargs ''cert'';
                     kwargs = kwargs(''cert'' := None)
                 in case (if truthy proxies \<or> verify \<noteq> VNone \<or> cert \<noteq> VNone
                          then (case proxies of
                                  VNone \<Rightarrow> Inr (Fresh VNone verify cert)
                                | VDict p \<Rightarrow> Inr (Fresh (VDict (normalize_proxies p)) verify cert)
                                | _ \<Rightarrow> Inl AttributeError)
                          else Inr (if session = VNone
                                    then (if use_session self then Shared else HttpxModule)
                                    else Session session)) of
                      Inl e \<Rightarrow> Inl e
                    | Inr c \<Rightarrow>
                        Inr (if \<not> truthy stream0 then Request c method url kwargs
                             else StreamSend c method url
                                    (\<lambda>k. if k \<in> set build_request_keys
                                         then Some (dict_get kwargs k) else None)
                                    (dict_get kwargs ''auth'')
                                    (dict_get kwargs ''follow_redirects'')))))"

text \<open>
  A response: what the HTTP client returned (opaque, \<open>content\<close>), its truth value, and
  the attributes the Downloader sets on it.
\<close>

record response =
  content :: nat
  resp_truthy :: bool
  meta :: "kwargs option"
  closed :: bool
  graper_exception :: "exn option"

text \<open>
  The body of \<^verbatim>\<open>Downloader._download\<close>, without its decorator.  \<open>send\<close> is the HTTP client:
  it executes a call and returns a response or raises; \<open>start0\<close> and \<open>end0\<close> are the two
  clock readings \<^verbatim>\<open>_start\<close> and \<^verbatim>\<open>_end\<close>.  The result lists the pool calls and HTTP
  calls made, and gives the exception raised or the response.  \<^verbatim>\<open>.copy()\<close> exists on a
  dict (and is taken to exist on an object such as a cookie jar) and raises
  \<^verbatim>\<open>AttributeError\<close> on the other values.
\<close>

definition download_once ::
  "Downloader \<Rightarrow> (http_call \<Rightarrow> exn + response) \<Rightarrow> real \<Rightarrow> real \<Rightarrow> request \<Rightarrow> kwargs \<Rightarrow>
     pool_call list \<times> http_call list \<times> (exn + response)" where
  "download_once self send start0 end0 request kwargs0 =
     (case prepare_request self request kwargs0 of
        (t, Inl e) \<Rightarrow> (t, [], Inl e)
      | (t, Inr (session0, method, url, kwargs)) \<Rightarrow>
         (case download_by_httpx self method url session0 kwargs of
            Inl e \<Rightarrow> (t, [], Inl e)
          | Inr c \<Rightarrow>
             (case send c of
                Inl e \<Rightarrow> (t, [c], Inl e)
              | Inr response \<Rightarrow>
                 (case (case dict_get kwargs ''cookies'' of
                          VDict d \<Rightarrow> Inr (VDict d) | VObj n \<Rightarrow> Inr (VObj n)
                        | _ \<Rightarrow> Inl AttributeError) of
                    Inl e \<Rightarrow> (t, [c], Inl e)
                  | Inr cookies \<Rightarrow>
                     (let response = response\<lparr>meta := Some
                            [''proxies'' \<mapsto> dict_get kwargs ''proxies'',
                             ''headers'' \<mapsto> dict_get kwargs ''headers'',
                             ''cookies'' \<mapsto> cookies,
                             ''time'' \<mapsto> VDict [''start'' \<mapsto> VFloat start0,
                                                 ''end'' \<mapsto> VFloat end0,
                                                 ''use'' \<mapsto> VFloat (end0 - start0)]]\<rparr>;
                          response = (if \<not> truthy (dict_get kwargs ''stream'')
                                      then response\<lparr>closed := True\<rparr> else response)
                      in (t, [c], Inr response))))))"

text \<open>
  \<^verbatim>\<open>Downloader.download\<close>.  The decorated method \<^verbatim>\<open>self._download\<close> is a parameter
  \<open>dl\<close>, since \<^verbatim>\<open>util.retry_decorator\<close> is not part of this file: \<open>dl i request kwargs\<close> is
  the outcome of the call made in iteration \<open>i\<close> of the loop, an exception raised
  (\<open>Inl\<close>) or the value returned, a response or \<^verbatim>\<open>None\<close>.  The state of the loop holds
  the local variables, the requests dispatched so far and the log records written.
\<close>

datatype log_event = LogFailed response | LogException "exn option" | LogError "exn option"

record download_state =
  st_request :: request
  st_response :: "response option"
  st_exception :: "exn option"
  is_converted :: bool
  dispatched :: "request list"
  logged :: "log_event list"

text \<open>
  The loop \<^verbatim>\<open>for i in range(2)\<close> over the remaining values of \<open>i\<close>.  An exception raised
  by \<^verbatim>\<open>convert_http_protocol\<close> inside the handler is not caught: it ends the loop and
  leaves \<^verbatim>\<open>download\<close> (\<open>Inl\<close>).
\<close>

fun download_loop ::
  "Downloader \<Rightarrow> (nat \<Rightarrow> request \<Rightarrow> kwargs \<Rightarrow> exn + response option) \<Rightarrow> kwargs \<Rightarrow>
     nat list \<Rightarrow> download_state \<Rightarrow> exn + download_state" where
  "download_loop self dl kwargs [] st = Inr st"
| "download_loop self dl kwargs (i # is) st =
     (let st = st\<lparr>dispatched := dispatched st @ [st_request st]\<rparr>
      in case dl i (st_request st) kwargs of
           Inr response \<Rightarrow>
             Inr (st\<lparr>st_response := response,
                     logged := logged st @
                       (case response of
                          None \<Rightarrow> []
                        | Some r \<Rightarrow> if \<not> resp_truthy r \<and> show_fail_log self
                                    then [LogFailed r] else [])\<rparr>)
         | Inl e \<Rightarrow>
             (if \<not> is_converted st
              then (case convert_http_protocol (st_request st) of
                      Inl e' \<Rightarrow> Inl e'
                    | Inr request' \<Rightarrow>
                        download_loop self dl kwargs is
                          (st\<lparr>st_exception := Some e, st_request := request',
                              is_converted := True\<rparr>))
              else download_loop self dl kwargs is
                     (st\<lparr>logged := logged st @
                         [if show_error_log self then LogException (st_exception st)
                          else LogError (st_exception st)]\<rparr>)))"

definition download ::
  "Downloader \<Rightarrow> (nat \<Rightarrow> request \<Rightarrow> kwargs \<Rightarrow> exn + response option) \<Rightarrow> request \<Rightarrow> kwargs \<Rightarrow>
     exn + (response option \<times> download_state)" where
  "download self dl request kwargs =
     (case download_loop self dl kwargs [0, 1]
             \<lparr>st_request = request, st_response = None, st_exception = None,
              is_converted = False, dispatched = [], logged = []\<rparr> of
        Inl e \<Rightarrow> Inl e
      | Inr st \<Rightarrow>
          Inr (case st_response st of
                 None \<Rightarrow> None
               | Some r \<Rightarrow> Some (r\<lparr>graper_exception := st_exception st\<rparr>),
               st))"

text \<open>The annotation \<^verbatim>\<open>response.graper_exception = exception\<close> of a returned response.\<close>

definition annotate :: "exn option \<Rightarrow> response option \<Rightarrow> response option" where
  "annotate x r = map_option (\<lambda>r. r\<lparr>graper_exception := x\<rparr>) r"

text \<open>
  \<^verbatim>\<open>Downloader.__init__\<close> with the default arguments and no cookie or referer pool.  The
  parameters are what lies outside this file: the reply of the proxy pool, the reply of
  the user agent pool (if it is truthy) and \<^verbatim>\<open>util.format_headers\<close>.  A new client has no
  \<^verbatim>\<open>Cookie\<close> header.
\<close>

definition Downloader_init :: "pyval \<Rightarrow> pyval option \<Rightarrow> (kwargs \<Rightarrow> kwargs) \<Rightarrow> Downloader" where
  "Downloader_init proxy_reply ua fmt =
     \<lparr>http2 = False, timeout = VInt 20, proxy_enable = True, proxy_pool = proxy_reply,
      user_agent_pool = ua, cookie_pool = None, referer_pool = None,
      show_error_log = False, show_fail_log = True, use_session = True, stream = False,
      use_default_headers = True, format_headers = True, custom_headers = Map.empty,
      format_headers_fn = fmt, session_cookie = [], object_cookie = (\<lambda>n. [])\<rparr>"

section \<open>LimitRedisCookiePool: a pool in a Redis sorted set\<close>

text \<open>
  The sorted set stored under the pool's key: members with their scores, each member
  once.  The Redis client is not part of this file; its three commands are modelled by
  what Redis does.  \<^verbatim>\<open>ZADD\<close> sets the score of a member, adding the member if needed
  (sent without any pair it is rejected by the server with a \<^verbatim>\<open>ResponseError\<close>, which
  is written into \<open>add\<close> below).
  \<^verbatim>\<open>ZRANGEBYSCORE key -inf mx\<close> replies with the members whose score is at most \<open>mx\<close>;
  the order of the reply plays no role here, since the only use of the reply is a random
  choice, for which every index is considered.  \<^verbatim>\<open>ZREM\<close> removes a member.  Members are
  written and read back as the same strings (\<^verbatim>\<open>decode\<close> undoes the encoding).  The calls
  \<^verbatim>\<open>zadd(key, **{member: score})\<close> are those of the client that takes pairs as keyword
  arguments; its own parameter names are not used as members.
\<close>

type_synonym zset = "(string \<times> real) list"

definition zadd :: "zset \<Rightarrow> (string \<times> real) list \<Rightarrow> zset" where
  "zadd z pairs = fold (\<lambda>(m, s). AList.update m s) pairs z"

definition zrangebyscore :: "zset \<Rightarrow> real \<Rightarrow> string list" where
  "zrangebyscore z mx = map fst (filter (\<lambda>(m, s). s \<le> mx) z)"

definition zrem :: "zset \<Rightarrow> string \<Rightarrow> zset" where
  "zrem z m = AList.delete m z"

text \<open>
  What the pool sees of the world: the clock, the sorted set, and a record of what has
  been done.  \<open>now\<close> is the time of the last clock reading (advanced by sleeping);
  \<open>lag\<close> lists the times that pass before each of the coming clock readings, so that
  time passes between two calls and also between two statements of one call.  Times are
  real numbers of seconds: the rounding of floating point numbers is not modelled.
\<close>

datatype effect =
    Query real real "string list"
  | Sleep real
  | Zadd "(string \<times> real) list"
  | Zrem string

record world =
  now :: real
  lag :: "real list"
  zset :: zset
  trace :: "effect list"

text \<open>\<^verbatim>\<open>time.time()\<close>: the next clock reading.\<close>

definition time_time :: "world \<Rightarrow> real \<times> world" where
  "time_time w =
     (case lag w of
        [] \<Rightarrow> (now w, w)
      | d # ds \<Rightarrow> (now w + d, w\<lparr>now := now w + d, lag := ds\<rparr>))"

text \<open>\<^verbatim>\<open>time.sleep(s)\<close>.\<close>

definition sleep :: "real \<Rightarrow> world \<Rightarrow> world" where
  "sleep s w = w\<lparr>now := now w + s, trace := trace w @ [Sleep s]\<rparr>"

text \<open>
  The two uses of \<^verbatim>\<open>random\<close>.  The outcome is determined by a number \<open>r\<close> that stands
  for the state of the generator and ranges over all naturals: \<^verbatim>\<open>randint(a, b)\<close> gives an
  integer between \<open>a\<close> and \<open>b\<close> and raises \<^verbatim>\<open>ValueError\<close> on an empty range, \<^verbatim>\<open>choice(xs)\<close>
  gives an element of a non-empty list.
\<close>

definition randint :: "int \<Rightarrow> int \<Rightarrow> nat \<Rightarrow> exn + int" where
  "randint a b r = (if b < a then Inl ValueError else Inr (a + int r mod (b - a + 1)))"

definition choice :: "nat \<Rightarrow> 'a list \<Rightarrow> 'a" where
  "choice r xs = xs ! (r mod length xs)"

record LimitRedisCookiePool =
  cookie_key :: string
  limit :: int
  with_random :: int

text \<open>\<^verbatim>\<open>LimitRedisCookiePool.__init__\<close>, with its two assertions.\<close>

definition LimitRedisCookiePool_init :: "string \<Rightarrow> int \<Rightarrow> int \<Rightarrow> exn + LimitRedisCookiePool" where
  "LimitRedisCookiePool_init namespace limit0 with_random0 =
     (if namespace = [] then Inl AssertionError
      else if \<not> 0 \<le> with_random0 then Inl AssertionError
      else Inr \<lparr>cookie_key = ''LimitRedisCookiePool:'' @ namespace,
                limit = limit0, with_random = with_random0\<rparr>)"

text \<open>
  The loop \<^verbatim>\<open>for i in range(retry)\<close> of \<^verbatim>\<open>LimitRedisCookiePool.get\<close>, with \<open>n\<close> iterations
  left, the effective limit \<open>elimit\<close> (\<^verbatim>\<open>_limit\<close>) and the number \<open>r\<close> that decides the random
  choice.  Each query is recorded with the clock reading it was made at, the bound sent
  and the reply.
\<close>

fun get_loop :: "real \<Rightarrow> nat \<Rightarrow> nat \<Rightarrow> world \<Rightarrow> string option \<times> world" where
  "get_loop elimit r 0 w = (None, w)"
| "get_loop elimit r (Suc n) w =
     (let (t, w) = time_time w;
          cookie_list = zrangebyscore (zset w) (t - elimit);
          w = w\<lparr>trace := trace w @ [Query t (t - elimit) cookie_list]\<rparr>
      in if cookie_list = [] then get_loop elimit r n (sleep 1 w)
         else (let cookie = choice r cookie_list;
                   (t2, w) = time_time w
               in (Some cookie,
                   w\<lparr>zset := zadd (zset w) [(cookie, t2)],
                      trace := trace w @ [Zadd [(cookie, t2)]]\<rparr>)))"

text \<open>
  \<^verbatim>\<open>LimitRedisCookiePool.get(retry)\<close>: \<open>r1\<close> decides the jitter, \<open>r2\<close> the choice.
  \<^verbatim>\<open>range(retry)\<close> is empty for a negative \<^verbatim>\<open>retry\<close>.
\<close>

definition get :: "LimitRedisCookiePool \<Rightarrow> int \<Rightarrow> nat \<Rightarrow> nat \<Rightarrow> world \<Rightarrow>
    exn + (string option \<times> world)" where
  "get self retry r1 r2 w =
     (case (if with_random self \<noteq> 0
            then (case randint (- with_random self) (with_random self) r1 of
                    Inl e \<Rightarrow> Inl e
                  | Inr j \<Rightarrow> Inr (limit self + j))
            else Inr (limit self)) of
        Inl e \<Rightarrow> Inl e
      | Inr lim0 \<Rightarrow> Inr (get_loop (real_of_int lim0) r2 (nat retry) w))"

text \<open>
  \<^verbatim>\<open>LimitRedisCookiePool.add(cookie, delay)\<close>.  The argument is one cookie or a list of
  cookies.  The dict comprehension reads the clock once for each cookie, and a cookie
  that occurs twice keeps the later value.  With an empty list the command has no
  pair and is rejected.
\<close>

datatype cookie_arg = One string | Many "string list"

text \<open>\<^verbatim>\<open>if not isinstance(cookie, list): cookie = [cookie]\<close>.\<close>

fun cookies_of :: "cookie_arg \<Rightarrow> string list" where
  "cookies_of (One c) = [c]"
| "cookies_of (Many cs) = cs"

fun add_info :: "string list \<Rightarrow> real \<Rightarrow> (string \<times> real) list \<Rightarrow> world \<Rightarrow>
    (string \<times> real) list \<times> world" where
  "add_info [] delay info w = (info, w)"
| "add_info (k # ks) delay info w =
     (let (t, w) = time_time w
      in add_info ks delay (AList.update k (t + delay) info) w)"

definition add :: "LimitRedisCookiePool \<Rightarrow> cookie_arg \<Rightarrow> real \<Rightarrow> world \<Rightarrow> exn + world" where
  "add self cookie delay w =
     (let (info, w) = add_info (cookies_of cookie) delay [] w
      in if info = [] then Inl ResponseError
         else Inr (w\<lparr>zset := zadd (zset w) info, trace := trace w @ [Zadd info]\<rparr>))"

definition delete :: "LimitRedisCookiePool \<Rightarrow> string \<Rightarrow> world \<Rightarrow> world" where
  "delete self cookie w = w\<lparr>zset := zrem (zset w) cookie, trace := trace w @ [Zrem cookie]\<rparr>"




text \<open>A world in which the clock does not run backwards and the sorted set has each
  member once.\<close>

definition wf_world :: "world \<Rightarrow> bool" where
  "wf_world w = (list_all (\<lambda>d. 0 \<le> d) (lag w) \<and> distinct (map fst (zset w)))"

text \<open>
  The record of attempts without a candidate, made at the clock readings \<open>ts\<close> with the
  effective limit \<open>elimit\<close>: a query with an empty reply and a sleep of one second, each
  time.
\<close>

definition failed_attempts :: "real \<Rightarrow> real list \<Rightarrow> effect list" where
  "failed_attempts elimit ts = concat (map (\<lambda>t. [Query t (t - elimit) [], Sleep 1]) ts)"

text \<open>The score of a member.\<close>

definition score :: "world \<Rightarrow> string \<Rightarrow> real option" where
  "score w m = map_of (zset w) m"

text \<open>
  The clock reading of attempt \<open>k\<close> (counted from 0) of a call of \<^verbatim>\<open>get\<close> that starts in
  the world \<open>w\<close>: the clock has moved by its next \<open>k + 1\<close> delays, and by the \<open>k\<close> sleeps
  of one second that follow the attempts before.
\<close>

definition attempt_time :: "world \<Rightarrow> nat \<Rightarrow> real" where
  "attempt_time w k = now w + sum_list (take (Suc k) (lag w)) + real k"




section \<open>Properties of CookiePool\<close>

lemma deque_append_len: "length (items d) \<le> maxlen d \<Longrightarrow> length (items (deque_append d x)) \<le> maxlen d"
  by (auto simp: deque_append_def Let_def)

lemma deque_append_maxlen: "maxlen (deque_append d x) = maxlen d"
  by (simp add: deque_append_def Let_def)

lemma inv_init: "pool_inv CookiePool_init"
  by (simp add: pool_inv_def CookiePool_init_def CookiePool_len_def)

lemma inv_add: "pool_inv p \<Longrightarrow> pool_inv (CookiePool_add p x)"
  by (auto simp: pool_inv_def CookiePool_add_def CookiePool_len_def deque_append_def Let_def)

lemma get_eq: "CookiePool_get p =
   (if items (cookie_list p) = [] then (None, p)
    else (Some (last (items (cookie_list p))),
          p\<lparr>cookie_list := (cookie_list p)\<lparr>items := butlast (items (cookie_list p))\<rparr>\<rparr>))"
  by (auto simp: CookiePool_get_def deque_pop_def split: list.splits)

lemma inv_get: "pool_inv p \<Longrightarrow> pool_inv (snd (CookiePool_get p))"
  by (auto simp: get_eq pool_inv_def CookiePool_len_def)

lemma inv_run: "pool_inv p \<Longrightarrow> pool_inv (snd (pool_run ops p))"
proof (induction ops p rule: pool_run.induct)
  case (3 ops p)
  then show ?case using inv_get[of p] by (auto split: prod.splits)
qed (auto simp: inv_add)

lemma items_add_all:
  "length (items (cookie_list p)) \<le> maxlen (cookie_list p) \<Longrightarrow>
   items (cookie_list (add_all p xs)) =
     drop (length (items (cookie_list p) @ xs) - maxlen (cookie_list p)) (items (cookie_list p) @ xs)
   \<and> maxlen (cookie_list (add_all p xs)) = maxlen (cookie_list p)"
proof (induction xs arbitrary: p)
  case Nil
  then show ?case by (simp add: add_all_def)
next
  case (Cons x xs)
  let ?q = "CookiePool_add p x"
  have l: "length (items (cookie_list ?q)) \<le> maxlen (cookie_list ?q)"
    using Cons.prems by (auto simp: CookiePool_add_def deque_append_def Let_def)
  have m: "maxlen (cookie_list ?q) = maxlen (cookie_list p)"
    by (simp add: CookiePool_add_def deque_append_def Let_def)
  have a: "add_all p (x # xs) = add_all ?q xs" by (simp add: add_all_def)
  show ?case
  proof (cases "maxlen (cookie_list p) < Suc (length (items (cookie_list p)))")
    case True
    then have i: "items (cookie_list ?q) = tl (items (cookie_list p) @ [x])"
      by (simp add: CookiePool_add_def deque_append_def Let_def)
    from True Cons.prems have e: "length (items (cookie_list p)) = maxlen (cookie_list p)" by simp
    show ?thesis using Cons.IH[OF l] unfolding a m i using e
      by (cases "items (cookie_list p)") (auto simp: drop_Cons')
  next
    case False
    then have i: "items (cookie_list ?q) = items (cookie_list p) @ [x]"
      by (simp add: CookiePool_add_def deque_append_def Let_def)
    show ?thesis using Cons.IH[OF l] unfolding a m i by simp
  qed
qed

lemma set_items_add:
  "set (items (cookie_list (CookiePool_add p x))) \<subseteq> insert x (set (items (cookie_list p)))"
proof -
  have "set (tl (items (cookie_list p) @ [x])) \<subseteq> set (items (cookie_list p) @ [x])"
    by (cases "items (cookie_list p)") auto
  then show ?thesis
    by (auto simp: CookiePool_add_def deque_append_def Let_def)
qed

lemma set_items_get:
  "set (items (cookie_list (snd (CookiePool_get p)))) \<subseteq> set (items (cookie_list p))"
  by (auto simp: get_eq dest: in_set_butlastD)

lemma run_results_in_pool:
  "Some y \<in> set (fst (pool_run ops p)) \<Longrightarrow> y \<in> set (items (cookie_list p)) \<or> Add y \<in> set ops"
proof (induction ops p rule: pool_run.induct)
  case (1 p)
  then show ?case by simp
next
  case (2 x ops p)
  then show ?case using set_items_add[of p x] by auto
next
  case (3 ops p)
  obtain r p' where g: "CookiePool_get p = (r, p')" by (cases "CookiePool_get p")
  obtain rs p'' where r: "pool_run ops p' = (rs, p'')" by (cases "pool_run ops p'")
  from "3.prems" g r have "Some y = r \<or> Some y \<in> set rs" by simp
  then show ?case
  proof
    assume "Some y = r"
    with g show ?thesis by (auto simp: get_eq split: if_splits)
  next
    assume "Some y \<in> set rs"
    with "3.IH"[of "(r, p')" r p'] g r have "y \<in> set (items (cookie_list p')) \<or> Add y \<in> set ops"
      by simp
    with set_items_get[of p] g show ?thesis by auto
  qed
qed

lemma reach_inv: "pool_inv (snd (pool_run pre CookiePool_init))"
  by (rule inv_run[OF inv_init])

text \<open>
  C8.  Whatever sequence of \<^verbatim>\<open>add\<close> and \<^verbatim>\<open>get\<close> calls has been made on a fresh pool, it
  holds at most 10000 entries.  Adding to a full pool drops the oldest entry.  After
  10001 insertions in a row the pool holds exactly the last 10000 of them, and the
  first-inserted element (when it differs from the others and is not added again) is
  returned by no later \<^verbatim>\<open>get\<close>.  \<^verbatim>\<open>get\<close> pops the most recently added element and
  returns \<^verbatim>\<open>None\<close> on an empty pool; it is total, the \<^verbatim>\<open>IndexError\<close> of the deque
  being caught.
\<close>

theorem CookiePool_bounded_lifo:
  "CookiePool_len (snd (pool_run pre (CookiePool_init :: 'a CookiePool))) \<le> 10000
   \<and> (\<forall>p x. p = snd (pool_run pre (CookiePool_init :: 'a CookiePool)) \<and> CookiePool_len p = 10000 \<longrightarrow>
          items (cookie_list (CookiePool_add p x)) = tl (items (cookie_list p)) @ [x])
   \<and> (\<forall>p xs. p = snd (pool_run pre (CookiePool_init :: 'a CookiePool)) \<and> length xs = 10001 \<longrightarrow>
          items (cookie_list (add_all p xs)) = tl xs
          \<and> (\<forall>ops. hd xs \<notin> set (tl xs) \<and> Add (hd xs) \<notin> set ops \<longrightarrow>
                 Some (hd xs) \<notin> set (fst (pool_run ops (add_all p xs)))))
   \<and> (\<forall>q :: 'a CookiePool. CookiePool_get q =
          (if items (cookie_list q) = [] then (None, q)
           else (Some (last (items (cookie_list q))),
                 q\<lparr>cookie_list := (cookie_list q)\<lparr>items := butlast (items (cookie_list q))\<rparr>\<rparr>)))"
proof -
  let ?p = "snd (pool_run pre (CookiePool_init :: 'a CookiePool))"
  have inv: "pool_inv ?p" by (rule reach_inv)
  have c1: "CookiePool_len ?p \<le> 10000" using inv by (simp add: pool_inv_def)
  have c2: "items (cookie_list (CookiePool_add ?p x)) = tl (items (cookie_list ?p)) @ [x]"
    if "CookiePool_len ?p = 10000" for x
  proof -
    from that have "items (cookie_list ?p) \<noteq> []" by (auto simp: CookiePool_len_def)
    with that inv show ?thesis
      by (simp add: pool_inv_def CookiePool_len_def CookiePool_add_def deque_append_def Let_def)
  qed
  have c3: "items (cookie_list (add_all ?p xs)) = tl xs" if "length xs = 10001" for xs :: "'a list"
  proof -
    from inv have l: "length (items (cookie_list ?p)) \<le> maxlen (cookie_list ?p)"
      and m: "maxlen (cookie_list ?p) = 10000"
      by (simp_all add: pool_inv_def CookiePool_len_def)
    from that obtain y ys where xs: "xs = y # ys" by (cases xs) auto
    with that have ly: "length ys = 10000" by simp
    show ?thesis using items_add_all[OF l, of xs] by (simp add: m xs ly)
  qed
  have c4: "Some (hd xs) \<notin> set (fst (pool_run ops (add_all ?p xs)))"
    if "length xs = 10001" "hd xs \<notin> set (tl xs)" "Add (hd xs) \<notin> set ops" for xs ops
    using run_results_in_pool[of "hd xs" ops "add_all ?p xs"] c3[OF that(1)] that(2,3) by auto
  show ?thesis using c1 c2 c3 c4 get_eq by blast
qed

theorem CookiePool_bounded_lifo_witness:
  "length (0 # replicate 10000 (Suc 0)) = 10001
   \<and> hd (0 # replicate 10000 (Suc 0)) \<notin> set (tl (0 # replicate 10000 (Suc 0)))
   \<and> Add (hd (0 # replicate 10000 (Suc 0))) \<notin> set [Get, Add 7, Get]
   \<and> Some 0 \<notin> set (fst (pool_run [Get, Add 7, Get] (add_all CookiePool_init (0 # replicate 10000 (Suc 0)))))
   \<and> CookiePool_len (add_all CookiePool_init (replicate 10000 (Suc 0))) = 10000
   \<and> items (cookie_list (CookiePool_add (add_all CookiePool_init (replicate 10000 (Suc 0))) 5))
       = tl (replicate 10000 (Suc 0)) @ [5]"
proof -
  let ?xs = "0 # replicate 10000 (Suc 0)"
  have h1: "length ?xs = 10001" by simp
  have h2: "hd ?xs \<notin> set (tl ?xs)" by simp
  have h3: "Add (hd ?xs) \<notin> set [Get, Add 7, Get]" by simp
  have p0: "(CookiePool_init :: nat CookiePool) = snd (pool_run [] CookiePool_init)" by simp
  from CookiePool_bounded_lifo[of "[]"] p0 h1 h2 h3
  have r1: "Some (hd ?xs) \<notin> set (fst (pool_run [Get, Add 7, Get] (add_all CookiePool_init ?xs)))"
    by metis
  let ?ads = "map Add (replicate 10000 (Suc 0))"
  have run_adds: "snd (pool_run (map Add ys) q) = add_all q ys" for ys :: "nat list" and q
    by (induction ys arbitrary: q) (simp_all add: add_all_def)
  have it: "items (cookie_list (add_all (CookiePool_init :: nat CookiePool) (replicate 10000 (Suc 0))))
             = replicate 10000 (Suc 0)"
    using items_add_all[of "CookiePool_init :: nat CookiePool" "replicate 10000 (Suc 0)"]
    by (simp add: CookiePool_init_def)
  then have len: "CookiePool_len (add_all (CookiePool_init :: nat CookiePool) (replicate 10000 (Suc 0))) = 10000"
    by (simp add: CookiePool_len_def)
  from CookiePool_bounded_lifo[of ?ads] run_adds[of "replicate 10000 (Suc 0)" CookiePool_init] len
  have r2: "items (cookie_list (CookiePool_add (add_all CookiePool_init (replicate 10000 (Suc 0))) 5))
      = tl (items (cookie_list (add_all (CookiePool_init :: nat CookiePool) (replicate 10000 (Suc 0))))) @ [5]"
    by metis
  show ?thesis using h1 h2 h3 r1 r2 len it by simp
qed

section \<open>Properties of the scheme flip\<close>

lemma startswith_https: "startswith u ''https'' \<Longrightarrow> \<not> startswith u ''http:''"
  by (auto simp: startswith_def take_Suc_conv_app_nth split: if_splits) 

text \<open>
  C9.  \<^verbatim>\<open>convert_http_protocol\<close> replaces a leading \<^verbatim>\<open>https\<close> of a URL string by
  \<^verbatim>\<open>http\<close> and a leading \<^verbatim>\<open>http:\<close> by \<^verbatim>\<open>https:\<close>; on a dict request whose \<^verbatim>\<open>url\<close>
  is a string, the \<^verbatim>\<open>url\<close> field is flipped in the same way and every other field is
  unchanged.
\<close>

theorem convert_http_protocol_flip:
  "(startswith u ''https'' \<longrightarrow> convert_http_protocol (Url u) = Inr (Url (''http'' @ drop 5 u)))
   \<and> (startswith u ''http:'' \<longrightarrow> convert_http_protocol (Url u) = Inr (Url (''https:'' @ drop 5 u)))
   \<and> (d ''url'' = Some (VStr u) \<longrightarrow>
        (\<exists>u' d'. convert_http_protocol (Url u) = Inr (Url u')
           \<and> convert_http_protocol (Structured d) = Inr (Structured d')
           \<and> d' ''url'' = Some (VStr u')
           \<and> (\<forall>k. k \<noteq> ''url'' \<longrightarrow> d' k = d k)))"
proof -
  have a: "convert_http_protocol (Url u) = Inr (Url (''http'' @ drop 5 u))" if "startswith u ''https''"
    using that by (simp add: convert_http_protocol_def)
  have b: "convert_http_protocol (Url u) = Inr (Url (''https:'' @ drop 5 u))" if h: "startswith u ''http:''"
  proof -
    from h have "u = ''http:'' @ drop (length ''http:'') u"
      unfolding startswith_def by (metis append_take_drop_id)
    then obtain r where u: "u = ''http:'' @ r" ..
    show ?thesis unfolding u by (simp add: convert_http_protocol_def startswith_def)
  qed
  have c: "\<exists>u' d'. convert_http_protocol (Url u) = Inr (Url u')
           \<and> convert_http_protocol (Structured d) = Inr (Structured d')
           \<and> d' ''url'' = Some (VStr u')
           \<and> (\<forall>k. k \<noteq> ''url'' \<longrightarrow> d' k = d k)" if "d ''url'' = Some (VStr u)"
    using that by (simp add: convert_http_protocol_def dict_get_def Let_def)
  show ?thesis using a b c by blast
qed

theorem convert_http_protocol_flip_witness:
  "startswith ''https://a.com/x'' ''https''
   \<and> convert_http_protocol (Url ''https://a.com/x'') = Inr (Url ''http://a.com/x'')
   \<and> startswith ''http://a.com/x'' ''http:''
   \<and> convert_http_protocol (Url ''http://a.com/x'') = Inr (Url ''https://a.com/x'')
   \<and> (Map.empty(''url'' \<mapsto> VStr ''http://a.com/x'', ''method'' \<mapsto> VStr ''GET'')) ''url''
        = Some (VStr ''http://a.com/x'')
   \<and> (\<exists>d'. convert_http_protocol
          (Structured (Map.empty(''url'' \<mapsto> VStr ''http://a.com/x'', ''method'' \<mapsto> VStr ''GET'')))
          = Inr (Structured d')
        \<and> d' ''url'' = Some (VStr ''https://a.com/x'')
        \<and> d' ''method'' = Some (VStr ''GET''))"
proof -
  let ?d = "Map.empty(''url'' \<mapsto> VStr ''http://a.com/x'', ''method'' \<mapsto> VStr ''GET'')"
  have h1: "startswith ''https://a.com/x'' ''https''" by (simp add: startswith_def)
  have h2: "startswith ''http://a.com/x'' ''http:''" by (simp add: startswith_def)
  have h3: "?d ''url'' = Some (VStr ''http://a.com/x'')" by simp
  have r1: "convert_http_protocol (Url ''https://a.com/x'') = Inr (Url ''http://a.com/x'')"
    using convert_http_protocol_flip[of "''https://a.com/x''", THEN conjunct1, THEN mp, OF h1]
    by simp
  note t = convert_http_protocol_flip[of "''http://a.com/x''" ?d, THEN conjunct2]
  have r2: "convert_http_protocol (Url ''http://a.com/x'') = Inr (Url ''https://a.com/x'')"
    using t[THEN conjunct1, THEN mp, OF h2] by simp
  from t[THEN conjunct2, THEN mp, OF h3] obtain u' d' where
    e: "convert_http_protocol (Url ''http://a.com/x'') = Inr (Url u')"
    and c: "convert_http_protocol (Structured ?d) = Inr (Structured d')"
    and du: "d' ''url'' = Some (VStr u')"
    and dk: "\<forall>k. k \<noteq> ''url'' \<longrightarrow> d' k = ?d k"
    by (elim exE conjE)
  from e r2 have u': "u' = ''https://a.com/x''" by simp
  from dk have dm: "d' ''method'' = Some (VStr ''GET'')" by simp
  have r3: "\<exists>d'. convert_http_protocol (Structured ?d) = Inr (Structured d')
        \<and> d' ''url'' = Some (VStr ''https://a.com/x'')
        \<and> d' ''method'' = Some (VStr ''GET'')"
    using c du dm unfolding u' by (intro exI[of _ d'] conjI)
  show ?thesis by (intro conjI h1 h2 h3 r1 r2 r3)
qed

section \<open>Properties of download\<close>

lemma download_first_ok:
  assumes "dl 0 request kwargs = Inr r"
  shows "\<exists>st. download self dl request kwargs = Inr (annotate None r, st) \<and> dispatched st = [request]"
  using assms by (auto simp: download_def annotate_def Let_def split: option.splits)

lemma download_flip_raises:
  assumes "dl 0 request kwargs = Inl e" "convert_http_protocol request = Inl e'"
  shows "download self dl request kwargs = Inl e'"
  using assms by (simp add: download_def Let_def)

lemma download_second_ok:
  assumes "dl 0 request kwargs = Inl e" "convert_http_protocol request = Inr request'"
     "dl 1 request' kwargs = Inr r"
  shows "\<exists>st. download self dl request kwargs = Inr (annotate (Some e) r, st)
          \<and> dispatched st = [request, request']"
  using assms by (auto simp: download_def annotate_def Let_def split: option.splits)

lemma download_both_fail:
  assumes "dl 0 request kwargs = Inl e" "convert_http_protocol request = Inr request'"
     "dl 1 request' kwargs = Inl e2"
  shows "\<exists>st. download self dl request kwargs = Inr (None, st)
          \<and> dispatched st = [request, request']
          \<and> logged st = [if show_error_log self then LogException (Some e) else LogError (Some e)]"
  using assms by (auto simp: download_def annotate_def Let_def split: option.splits)

lemma convert_total:
  "request = Url u \<or> (request = Structured d \<and> d ''url'' = Some (VStr u)) \<Longrightarrow>
    \<exists>r'. convert_http_protocol request = Inr r'"
  by (auto simp: convert_http_protocol_def dict_get_def Let_def)

lemma convert_http_example:
  "convert_http_protocol (Url ''http://a.com/x'') = Inr (Url ''https://a.com/x'')"
  by (simp add: convert_http_protocol_def startswith_def)

text \<open>
  On a request whose URL is a string (a URL string, or a dict with a string under
  \<^verbatim>\<open>url\<close>), for every keyword arguments and every behaviour of the dispatch,
  \<^verbatim>\<open>download\<close> returns: a response, or \<^verbatim>\<open>None\<close>.  It returns \<^verbatim>\<open>None\<close> exactly when no
  dispatch returned a response: the first returned \<^verbatim>\<open>None\<close>, or the first raised and the
  second raised or returned \<^verbatim>\<open>None\<close>.
\<close>

lemma download_returns_with_url:
  "request = Url u \<or> (request = Structured d \<and> d ''url'' = Some (VStr u)) \<Longrightarrow>
   \<exists>res st. download self dl request kwargs = Inr (res, st)
     \<and> (res = None \<longleftrightarrow>
          dl 0 request kwargs = Inr None
          \<or> (\<exists>e request'. dl 0 request kwargs = Inl e
                \<and> convert_http_protocol request = Inr request'
                \<and> (dl 1 request' kwargs = Inr None \<or> (\<exists>e2. dl 1 request' kwargs = Inl e2))))"
proof -
  assume wf: "request = Url u \<or> (request = Structured d \<and> d ''url'' = Some (VStr u))"
  then obtain request' where c: "convert_http_protocol request = Inr request'"
    using convert_total by blast
  show ?thesis
  proof (cases "dl 0 request kwargs")
    case (Inr r)
    from download_first_ok[where dl=dl and request=request and kwargs=kwargs and r=r and self=self] Inr
    obtain st where
      "download self dl request kwargs = Inr (annotate None r, st)" by blast
    moreover have "annotate None r = None \<longleftrightarrow> r = None" by (simp add: annotate_def)
    ultimately show ?thesis using Inr by auto
  next
    case (Inl e)
    show ?thesis
    proof (cases "dl 1 request' kwargs")
      case (Inr r)
      from download_second_ok[where dl=dl and request=request and kwargs=kwargs and r=r and self=self
          and e=e and request'=request'] Inl c Inr
      obtain st where
        "download self dl request kwargs = Inr (annotate (Some e) r, st)" by blast
      moreover have "annotate (Some e) r = None \<longleftrightarrow> r = None" by (simp add: annotate_def)
      ultimately show ?thesis using Inl Inr c by auto
    next
      case e2: (Inl e2)
      from download_both_fail[where dl=dl and request=request and kwargs=kwargs and self=self
          and e=e and request'=request' and ?e2.0=e2] Inl c e2
      obtain st where
        "download self dl request kwargs = Inr (None, st)" by blast
      then show ?thesis using Inl e2 c by auto
    qed
  qed
qed

text \<open>
  C4.  \<^verbatim>\<open>download\<close> does raise.  On a dict request without a string under \<^verbatim>\<open>url\<close>, once
  the first dispatch has raised, the handler calls \<^verbatim>\<open>convert_http_protocol\<close>, where
  \<^verbatim>\<open>url.startswith\<close> raises \<^verbatim>\<open>AttributeError\<close>; the call stands in the \<^verbatim>\<open>except\<close> block, where
  nothing catches it, and the exception leaves \<^verbatim>\<open>download\<close>.
\<close>

theorem download_propagates_handler_exception:
  assumes "dl 0 (Structured d) kwargs = Inl e" "\<forall>u. d ''url'' \<noteq> Some (VStr u)"
  shows "download self dl (Structured d) kwargs = Inl AttributeError"
proof -
  have "convert_http_protocol (Structured d) = Inl AttributeError"
    using assms(2) by (auto simp: convert_http_protocol_def dict_get_def split: option.splits pyval.splits)
  with assms(1) show ?thesis
    by (rule download_flip_raises[where dl=dl and request="Structured d" and kwargs=kwargs])
qed

lemma download_at_most_two:
  "download self dl request kwargs = Inr (res, st) \<Longrightarrow> length (dispatched st) \<le> 2"
  by (auto simp: download_def Let_def split: sum.splits if_splits)

text \<open>
  C5.  \<^verbatim>\<open>download\<close> dispatches at most twice.  When the first dispatch returns, its value
  is returned, annotated with \<^verbatim>\<open>None\<close>, and nothing else is dispatched.  When the first
  dispatch raises \<open>e\<close>, \<^verbatim>\<open>convert_http_protocol\<close> is applied once and its result is
  dispatched second; a response returned by the second dispatch is annotated with
  \<open>e\<close>, and \<^verbatim>\<open>None\<close> is returned when the second dispatch raises too.
\<close>

theorem download_two_attempts_flip_once:
  "(\<forall>r. dl 0 request kwargs = Inr r \<longrightarrow>
      (\<exists>st. download self dl request kwargs = Inr (annotate None r, st)
           \<and> dispatched st = [request]))
   \<and> (\<forall>e request'. dl 0 request kwargs = Inl e \<and> convert_http_protocol request = Inr request' \<longrightarrow>
      (\<exists>res st. download self dl request kwargs = Inr (res, st)
           \<and> dispatched st = [request, request']
           \<and> (\<forall>r. dl 1 request' kwargs = Inr r \<longrightarrow> res = annotate (Some e) r)
           \<and> (\<forall>e2. dl 1 request' kwargs = Inl e2 \<longrightarrow> res = None)))
   \<and> (\<forall>res st. download self dl request kwargs = Inr (res, st) \<longrightarrow> length (dispatched st) \<le> 2)"
proof (intro conjI allI impI)
  fix r assume "dl 0 request kwargs = Inr r"
  then show "\<exists>st. download self dl request kwargs = Inr (annotate None r, st) \<and> dispatched st = [request]"
    by (rule download_first_ok)
next
  fix e request'
  assume a: "dl 0 request kwargs = Inl e \<and> convert_http_protocol request = Inr request'"
  show "\<exists>res st. download self dl request kwargs = Inr (res, st)
           \<and> dispatched st = [request, request']
           \<and> (\<forall>r. dl 1 request' kwargs = Inr r \<longrightarrow> res = annotate (Some e) r)
           \<and> (\<forall>e2. dl 1 request' kwargs = Inl e2 \<longrightarrow> res = None)"
  proof (cases "dl 1 request' kwargs")
    case (Inr r)
    from download_second_ok[where dl=dl and request=request and kwargs=kwargs and r=r and self=self
          and e=e and request'=request'] a Inr
    show ?thesis by auto
  next
    case (Inl e2)
    from download_both_fail[where dl=dl and request=request and kwargs=kwargs and self=self
          and e=e and request'=request' and ?e2.0=e2] a Inl
    show ?thesis by auto
  qed
next
  fix res st assume "download self dl request kwargs = Inr (res, st)"
  then show "length (dispatched st) \<le> 2" by (rule download_at_most_two)
qed

theorem download_two_attempts_flip_once_witness:
  "(\<lambda>i r k. if i = (0::nat) then Inl (Exception ''boom'')
              else Inr (Some \<lparr>content = 1, resp_truthy = True, meta = None, closed = True,
                               graper_exception = None\<rparr>))
      0 (Url ''http://a.com/x'') Map.empty = Inl (Exception ''boom'')
   \<and> convert_http_protocol (Url ''http://a.com/x'') = Inr (Url ''https://a.com/x'')
   \<and> (\<exists>st. download (Downloader_init VNone None (\<lambda>h. h))
         (\<lambda>i r k. if i = (0::nat) then Inl (Exception ''boom'')
              else Inr (Some \<lparr>content = 1, resp_truthy = True, meta = None, closed = True,
                               graper_exception = None\<rparr>))
         (Url ''http://a.com/x'') Map.empty
        = Inr (Some \<lparr>content = 1, resp_truthy = True, meta = None, closed = True,
                      graper_exception = Some (Exception ''boom'')\<rparr>, st)
       \<and> dispatched st = [Url ''http://a.com/x'', Url ''https://a.com/x'']
       \<and> length (dispatched st) \<le> 2)"
proof -
  let ?r0 = "\<lparr>content = 1, resp_truthy = True, meta = None, closed = True,
                               graper_exception = None\<rparr>"
  let ?dl = "\<lambda>(i::nat) (r::request) (k::kwargs). if i = 0 then Inl (Exception ''boom'')
              else Inr (Some ?r0)"
  let ?D = "Downloader_init VNone None (\<lambda>h. h)"
  let ?rq = "Url ''http://a.com/x''"
  let ?rq' = "Url ''https://a.com/x''"
  have h1: "?dl 0 ?rq Map.empty = Inl (Exception ''boom'')" by simp
  have h2: "convert_http_protocol ?rq = Inr ?rq'" by (rule convert_http_example)
  have h3: "?dl 1 ?rq' Map.empty = Inr (Some ?r0)" by simp
  note t = download_two_attempts_flip_once[where dl="?dl" and request="?rq" and kwargs=Map.empty
      and self="?D"]
  from t[THEN conjunct2, THEN conjunct1, rule_format, of "Exception ''boom''" ?rq'] h1 h2
  obtain res st where d: "download ?D ?dl ?rq Map.empty = Inr (res, st)"
    and ds: "dispatched st = [?rq, ?rq']"
    and ok: "\<forall>r. ?dl 1 ?rq' Map.empty = Inr r \<longrightarrow> res = annotate (Some (Exception ''boom'')) r"
    by blast
  from ok h3 have res: "res = annotate (Some (Exception ''boom'')) (Some ?r0)" by blast
  from t[THEN conjunct2, THEN conjunct2, rule_format, OF d] have len: "length (dispatched st) \<le> 2" .
  have "download ?D ?dl ?rq Map.empty
        = Inr (Some (?r0\<lparr>graper_exception := Some (Exception ''boom'')\<rparr>), st)"
    using d res by (simp add: annotate_def)
  then have "download ?D ?dl ?rq Map.empty
        = Inr (Some \<lparr>content = 1, resp_truthy = True, meta = None, closed = True,
                      graper_exception = Some (Exception ''boom'')\<rparr>, st)
       \<and> dispatched st = [?rq, ?rq'] \<and> length (dispatched st) \<le> 2"
    using ds len by simp
  then show ?thesis using h1 h2 by blast
qed

section \<open>Properties of prepare_request\<close>

lemma dict_of_pairs_err: "dict_of_pairs ps = Inl e \<Longrightarrow> e = ValueError"
  by (induction ps arbitrary: e) (auto split: list.splits sum.splits)

lemma parse_cookies_err: "parse_cookies s = Inl e \<Longrightarrow> e = ValueError"
  unfolding parse_cookies_def by (rule dict_of_pairs_err)

lemma cookie_str_err:
  "(case v of VNone \<Rightarrow> Inr [] | VStr x \<Rightarrow> Inr x | _ \<Rightarrow> Inl TypeError) = Inl e \<Longrightarrow> e = TypeError"
  by (cases v) auto

lemma session_cookie_err:
  "(case s of VObj n \<Rightarrow> Inr (f n) | _ \<Rightarrow> Inl AttributeError) = Inl e \<Longrightarrow> e = AttributeError"
  by (cases s) auto

lemma cookies_from_headers_err:
  "cookies_from_headers self kw s c = Inl e \<Longrightarrow> e \<in> {TypeError, AttributeError, ValueError}"
  unfolding cookies_from_headers_def
  by (auto split: sum.splits if_splits dest: parse_cookies_err cookie_str_err session_cookie_err)

lemma finish_err:
  "finish_request self m u c kw = Inl e \<Longrightarrow> e \<in> {TypeError, AttributeError, ValueError}"
  unfolding finish_request_def Let_def
  by (auto split: sum.splits if_splits dest: cookies_from_headers_err)


lemma pool_headers_no_proxy: "ProxyGet \<notin> set (fst (pool_headers self))"
  by (auto simp: pool_headers_def default_headers_def Let_def split: prod.splits option.splits if_splits)

lemma merge_headers_err: "merge_headers self dh kw = Inl e \<Longrightarrow> e \<in> {TypeError, ValueError}"
  by (auto simp: merge_headers_def dict_update_def Let_def split: sum.splits pyval.splits if_splits)

lemma merge_headers_ok: "headers_ok kw \<Longrightarrow> \<exists>kw'. merge_headers self dh kw = Inr kw'"
  by (auto simp: merge_headers_def headers_ok_def dict_update_def Let_def split: option.splits)

lemma merge_headers_other:
  "merge_headers self dh kw = Inr kw' \<Longrightarrow> k \<noteq> ''headers'' \<Longrightarrow> kw' k = kw k"
  by (auto simp: merge_headers_def Let_def split: sum.splits)

lemma set_if_absent_apply:
  "set_if_absent kw k v k' =
     (if k' = k then (case kw k of None \<Rightarrow> Some v | Some x \<Rightarrow> Some x) else kw k')"
  by (auto simp: set_if_absent_def split: option.splits)

lemma resolve_proxies_cases:
  "resolve_proxies self kw =
     (if kw ''proxies'' = None \<and> proxy_enable self
      then ([ProxyGet],
            if truthy (proxy_pool self)
            then Inr ((set_if_absent kw ''verify'' (VBool False))(''proxies'' \<mapsto> proxy_pool self))
            else Inl (Exception ''no valid proxy''))
      else ([], Inr (set_if_absent kw ''verify'' (VBool False))))"
  by (simp add: resolve_proxies_def Let_def dict_get_def set_if_absent_apply)

lemma prepare_request_unfold:
  "prepare_request self request kw =
     (case merge_headers self (snd (snd (pool_headers self))) (merged_kwargs request kw) of
        Inl e \<Rightarrow> (fst (pool_headers self), Inl e)
      | Inr kw1 \<Rightarrow>
          (fst (pool_headers self) @ fst (resolve_proxies self kw1),
           case snd (resolve_proxies self kw1) of
             Inl e \<Rightarrow> Inl e
           | Inr kw2 \<Rightarrow>
               finish_request self
                 (case merged_kwargs request kw ''method'' of None \<Rightarrow> VStr ''GET'' | Some m \<Rightarrow> m)
                 (case request of Structured d \<Rightarrow> dict_get d ''url'' | Url u \<Rightarrow> VStr u)
                 (fst (snd (pool_headers self))) kw2))"
  by (simp add: prepare_request_def Let_def split: prod.splits sum.splits)

lemma prepare_no_valid_proxy_only_if:
  assumes "snd (prepare_request self request kw) = Inl (Exception ''no valid proxy'')"
  shows "proxy_enable self \<and> merged_kwargs request kw ''proxies'' = None
          \<and> \<not> truthy (proxy_pool self) \<and> ProxyGet \<in> set (fst (prepare_request self request kw))"
proof (cases "merge_headers self (snd (snd (pool_headers self))) (merged_kwargs request kw)")
  case (Inl e)
  with assms merge_headers_err[OF Inl] show ?thesis
    by (auto simp: prepare_request_unfold)
next
  case (Inr kw1)
  have p: "kw1 ''proxies'' = merged_kwargs request kw ''proxies''"
    using merge_headers_other[OF Inr, of "''proxies''"] by simp
  show ?thesis
  proof (cases "kw1 ''proxies'' = None \<and> proxy_enable self")
    case True
    with assms Inr p show ?thesis
      by (auto simp: prepare_request_unfold resolve_proxies_cases split: if_splits dest: finish_err)
  next
    case False
    with assms Inr show ?thesis
      by (auto simp: prepare_request_unfold resolve_proxies_cases split: if_splits dest: finish_err)
  qed
qed

lemma prepare_no_valid_proxy_if:
  assumes "headers_ok (merged_kwargs request kw)" "proxy_enable self"
    "merged_kwargs request kw ''proxies'' = None" "\<not> truthy (proxy_pool self)"
  shows "snd (prepare_request self request kw) = Inl (Exception ''no valid proxy'')"
proof -
  from merge_headers_ok[OF assms(1)] obtain kw1 where
    m: "merge_headers self (snd (snd (pool_headers self))) (merged_kwargs request kw) = Inr kw1"
    by blast
  have p: "kw1 ''proxies'' = None"
    using merge_headers_other[OF m, of "''proxies''"] assms(3) by simp
  show ?thesis using m p assms(2,4)
    by (simp add: prepare_request_unfold resolve_proxies_cases)
qed

lemma prepare_explicit_proxies:
  assumes "merged_kwargs request kw ''proxies'' \<noteq> None"
  shows "ProxyGet \<notin> set (fst (prepare_request self request kw))"
proof (cases "merge_headers self (snd (snd (pool_headers self))) (merged_kwargs request kw)")
  case (Inl e)
  then show ?thesis using pool_headers_no_proxy[of self] by (simp add: prepare_request_unfold)
next
  case (Inr kw1)
  have p: "kw1 ''proxies'' \<noteq> None"
    using merge_headers_other[OF Inr, of "''proxies''"] assms by simp
  show ?thesis using Inr p pool_headers_no_proxy[of self]
    by (simp add: prepare_request_unfold resolve_proxies_cases)
qed

text \<open>
  C7.  When the \<^verbatim>\<open>headers\<close> option is absent, falsy or a dict (so that the blocks before
  the proxy block do not raise), \<^verbatim>\<open>prepare_request\<close> raises \<^verbatim>\<open>Exception("no valid proxy")\<close>
  exactly when \<^verbatim>\<open>proxy_enable\<close> is set, neither the dict request nor the keyword arguments
  have a key \<^verbatim>\<open>proxies\<close>, and the reply of the proxy pool is falsy.  Whenever that error
  is raised these three conditions hold and the pool has been asked.  With a key
  \<^verbatim>\<open>proxies\<close> the proxy pool is not asked and the error is not raised.
\<close>

theorem prepare_request_no_valid_proxy:
  "(headers_ok (merged_kwargs request kw) \<longrightarrow>
      (snd (prepare_request self request kw) = Inl (Exception ''no valid proxy'')
        \<longleftrightarrow> proxy_enable self \<and> merged_kwargs request kw ''proxies'' = None
            \<and> \<not> truthy (proxy_pool self)))
   \<and> (snd (prepare_request self request kw) = Inl (Exception ''no valid proxy'') \<longrightarrow>
        proxy_enable self \<and> merged_kwargs request kw ''proxies'' = None
        \<and> \<not> truthy (proxy_pool self)
        \<and> ProxyGet \<in> set (fst (prepare_request self request kw)))
   \<and> (merged_kwargs request kw ''proxies'' \<noteq> None \<longrightarrow>
        ProxyGet \<notin> set (fst (prepare_request self request kw))
        \<and> snd (prepare_request self request kw) \<noteq> Inl (Exception ''no valid proxy''))"
  using prepare_no_valid_proxy_only_if[of self request kw]
    prepare_no_valid_proxy_if[of request kw self]
    prepare_explicit_proxies[of request kw self]
  by blast

theorem prepare_request_no_valid_proxy_witness:
  "headers_ok (merged_kwargs (Url ''http://example.test/path'') Map.empty)
   \<and> proxy_enable (Downloader_init VNone None (\<lambda>h. h))
   \<and> merged_kwargs (Url ''http://example.test/path'') Map.empty ''proxies'' = None
   \<and> \<not> truthy (proxy_pool (Downloader_init VNone None (\<lambda>h. h)))
   \<and> snd (prepare_request (Downloader_init VNone None (\<lambda>h. h))
            (Url ''http://example.test/path'') Map.empty) = Inl (Exception ''no valid proxy'')
   \<and> merged_kwargs (Url ''http://example.test/path'') [''proxies'' \<mapsto> VNone] ''proxies'' \<noteq> None
   \<and> ProxyGet \<notin> set (fst (prepare_request (Downloader_init VNone None (\<lambda>h. h))
            (Url ''http://example.test/path'') [''proxies'' \<mapsto> VNone]))
   \<and> snd (prepare_request (Downloader_init VNone None (\<lambda>h. h))
            (Url ''http://example.test/path'') [''proxies'' \<mapsto> VNone])
        \<noteq> Inl (Exception ''no valid proxy'')"
proof -
  let ?D = "Downloader_init VNone None (\<lambda>h. h)"
  let ?rq = "Url ''http://example.test/path''"
  have h1: "headers_ok (merged_kwargs ?rq Map.empty)" by (simp add: headers_ok_def merged_kwargs_def)
  have h2: "proxy_enable ?D" by (simp add: Downloader_init_def)
  have h3: "merged_kwargs ?rq Map.empty ''proxies'' = None" by (simp add: merged_kwargs_def)
  have h4: "\<not> truthy (proxy_pool ?D)" by (simp add: Downloader_init_def)
  have h5: "merged_kwargs ?rq [''proxies'' \<mapsto> VNone] ''proxies'' \<noteq> None"
    by (simp add: merged_kwargs_def)
  note t1 = prepare_request_no_valid_proxy[of ?rq Map.empty ?D]
  from t1[THEN conjunct1, THEN mp, OF h1] h2 h3 h4
  have r1: "snd (prepare_request ?D ?rq Map.empty) = Inl (Exception ''no valid proxy'')" by blast
  note t2 = prepare_request_no_valid_proxy[of ?rq "[''proxies'' \<mapsto> VNone]" ?D]
  note r2 = t2[THEN conjunct2, THEN conjunct2, THEN mp, OF h5]
  show ?thesis by (intro conjI h1 h2 h3 h4 h5 r1 r2[THEN conjunct1] r2[THEN conjunct2])
qed

lemma finish_request_out:
  assumes "finish_request self m0 u c0 kw = Inr (s, m, u', out)"
  shows "u' = u \<and> s = dict_get kw ''session''
    \<and> m = (if (kw ''data'' \<noteq> None \<or> kw ''json'' \<noteq> None) \<and> m0 = VStr ''GET''
          then VStr ''POST'' else m0)
    \<and> out ''timeout'' = (case kw ''timeout'' of None \<Rightarrow> Some (timeout self) | Some x \<Rightarrow> Some x)
    \<and> out ''stream'' = (case kw ''stream'' of None \<Rightarrow> Some (VBool (stream self)) | Some x \<Rightarrow> Some x)
    \<and> (kw ''cookies'' \<noteq> None \<longrightarrow> out ''cookies'' = kw ''cookies'')
    \<and> out ''headers'' = kw ''headers'' \<and> out ''verify'' = kw ''verify''
    \<and> out ''proxies'' = kw ''proxies'' \<and> out ''cert'' = kw ''cert''"
proof -
  let ?k = "(set_if_absent (set_if_absent kw ''stream'' (VBool (stream self))) ''timeout'' (timeout self))
              (''session'' := None)"
  have "\<exists>c. out = (?k(''cookies'' \<mapsto> c))(''url'' := None, ''method'' := None)
       \<and> s = dict_get kw ''session'' \<and> u' = u
       \<and> m = (if (kw ''data'' \<noteq> None \<or> kw ''json'' \<noteq> None) \<and> m0 = VStr ''GET''
          then VStr ''POST'' else m0)
       \<and> (kw ''cookies'' \<noteq> None \<longrightarrow> Some c = kw ''cookies'')"
    using assms unfolding finish_request_def Let_def
    by (auto simp: set_if_absent_apply dict_get_def split: sum.splits if_splits option.splits)
  then obtain c where o: "out = (?k(''cookies'' \<mapsto> c))(''url'' := None, ''method'' := None)"
    and s: "s = dict_get kw ''session''" and u: "u' = u"
    and m: "m = (if (kw ''data'' \<noteq> None \<or> kw ''json'' \<noteq> None) \<and> m0 = VStr ''GET''
          then VStr ''POST'' else m0)"
    and c: "kw ''cookies'' \<noteq> None \<longrightarrow> Some c = kw ''cookies''"
    by blast
  show ?thesis unfolding o using s u m c
    by (simp add: set_if_absent_apply)
qed

lemma resolve_proxies_out:
  assumes "snd (resolve_proxies self kw) = Inr out"
  shows "(k \<noteq> ''verify'' \<longrightarrow> k \<noteq> ''proxies'' \<longrightarrow> out k = kw k)
    \<and> out ''verify'' = (case kw ''verify'' of None \<Rightarrow> Some (VBool False) | Some x \<Rightarrow> Some x)
    \<and> (kw ''proxies'' \<noteq> None \<longrightarrow> out ''proxies'' = kw ''proxies'')"
  using assms by (auto simp: resolve_proxies_cases set_if_absent_apply split: if_splits)


lemma prepare_request_Inr:
  assumes "prepare_request self request kw = (t, Inr res)"
  obtains kw1 kw2 where
    "merge_headers self (snd (snd (pool_headers self))) (merged_kwargs request kw) = Inr kw1"
    "snd (resolve_proxies self kw1) = Inr kw2"
    "finish_request self
        (case merged_kwargs request kw ''method'' of None \<Rightarrow> VStr ''GET'' | Some m \<Rightarrow> m)
        (case request of Structured d \<Rightarrow> dict_get d ''url'' | Url u \<Rightarrow> VStr u)
        (fst (snd (pool_headers self))) kw2 = Inr res"
  using assms by (auto simp: prepare_request_unfold split: sum.splits)




lemma parse_empty: "parse_cookies '';'' = Inr Map.empty"
  by (simp add: parse_cookies_def strip_truthy_def)




section \<open>The client that executes a request\<close>

lemma dict_get_del: "dict_get (kw(k := None)) k' = (if k' = k then VNone else dict_get kw k')"
  by (simp add: dict_get_def)

lemma download_by_httpx_unfold:
  "download_by_httpx self m u session kw =
     (case kw ''stream'' of
        None \<Rightarrow> Inl KeyError
      | Some stream0 \<Rightarrow>
         (case kw ''verify'' of
            None \<Rightarrow> Inl KeyError
          | Some verify \<Rightarrow>
             (case (if truthy (dict_get kw ''proxies'') \<or> verify \<noteq> VNone \<or> dict_get kw ''cert'' \<noteq> VNone
                    then (case dict_get kw ''proxies'' of
                            VNone \<Rightarrow> Inr (Fresh VNone verify (dict_get kw ''cert''))
                          | VDict p \<Rightarrow> Inr (Fresh (VDict (normalize_proxies p)) verify (dict_get kw ''cert''))
                          | _ \<Rightarrow> Inl AttributeError)
                    else Inr (if session = VNone
                              then (if use_session self then Shared else HttpxModule)
                              else Session session)) of
                Inl e \<Rightarrow> Inl e
              | Inr c \<Rightarrow>
                  Inr (if \<not> truthy stream0
                       then Request c m u (kw(''stream'' := None, ''proxies'' := None,
                                              ''verify'' := None, ''cert'' := None))
                       else StreamSend c m u
                              (\<lambda>k. if k \<in> set build_request_keys
                                   then Some (dict_get (kw(''stream'' := None, ''proxies'' := None,
                                              ''verify'' := None, ''cert'' := None)) k) else None)
                              (dict_get (kw(''stream'' := None, ''proxies'' := None,
                                              ''verify'' := None, ''cert'' := None)) ''auth'')
                              (dict_get (kw(''stream'' := None, ''proxies'' := None,
                                              ''verify'' := None, ''cert'' := None))
                                 ''follow_redirects'')))))"
  unfolding download_by_httpx_def Let_def
  by (simp add: dict_get_del split: option.splits
      cong del: sum.case_cong_weak pyval.case_cong_weak if_weak_cong)

lemma fresh_case:
  "(case pv of VNone \<Rightarrow> Inr (Fresh VNone v ce) | VDict p \<Rightarrow> Inr (Fresh (VDict (f p)) v ce)
     | _ \<Rightarrow> Inl AttributeError) = Inr c \<Longrightarrow> \<exists>p. c = Fresh p v ce"
  by (cases pv) auto

lemma download_by_httpx_client:
  assumes "download_by_httpx self m u session kw = Inr c"
  shows "\<exists>v. kw ''verify'' = Some v
     \<and> (if truthy (dict_get kw ''proxies'') \<or> v \<noteq> VNone \<or> dict_get kw ''cert'' \<noteq> VNone
         then \<exists>p. client_of c = Fresh p v (dict_get kw ''cert'')
         else client_of c = (if session = VNone
                             then (if use_session self then Shared else HttpxModule)
                             else Session session))"
proof -
  from assms obtain st v where st: "kw ''stream'' = Some st" and v: "kw ''verify'' = Some v"
    by (auto simp: download_by_httpx_unfold split: option.splits)
  show ?thesis
  proof (cases "truthy (dict_get kw ''proxies'') \<or> v \<noteq> VNone \<or> dict_get kw ''cert'' \<noteq> VNone")
    case True
    with assms st v obtain c0 where
      c0: "(case dict_get kw ''proxies'' of
                            VNone \<Rightarrow> Inr (Fresh VNone v (dict_get kw ''cert''))
                          | VDict p \<Rightarrow> Inr (Fresh (VDict (normalize_proxies p)) v (dict_get kw ''cert''))
                          | _ \<Rightarrow> Inl AttributeError) = Inr c0"
      and c: "client_of c = c0"
      by (auto simp: download_by_httpx_unfold split: sum.splits if_splits)
    from fresh_case[OF c0] c True v show ?thesis by auto
  next
    case False
    with assms st v show ?thesis
      by (auto simp: download_by_httpx_unfold split: if_splits)
  qed
qed

lemma prepare_request_verify:
  assumes "prepare_request self request kw = (t, Inr (s, m, u, out))"
  shows "out ''verify'' = (case merged_kwargs request kw ''verify'' of
                             None \<Rightarrow> Some (VBool False) | Some x \<Rightarrow> Some x)"
proof -
  from assms obtain kw1 kw2 where
    mh: "merge_headers self (snd (snd (pool_headers self))) (merged_kwargs request kw) = Inr kw1"
    and rp: "snd (resolve_proxies self kw1) = Inr kw2"
    and fr: "finish_request self
        (case merged_kwargs request kw ''method'' of None \<Rightarrow> VStr ''GET'' | Some m \<Rightarrow> m)
        (case request of Structured d \<Rightarrow> dict_get d ''url'' | Url u \<Rightarrow> VStr u)
        (fst (snd (pool_headers self))) kw2 = Inr (s, m, u, out)"
    by (rule prepare_request_Inr)
  show ?thesis
    using finish_request_out[OF fr] resolve_proxies_out[OF rp, of "''verify''"]
      merge_headers_other[OF mh, of "''verify''"] by simp
qed

lemma download_once_calls:
  assumes "c \<in> set (fst (snd (download_once self send s0 e0 request kw)))"
  obtains t s m u out where "prepare_request self request kw = (t, Inr (s, m, u, out))"
    "download_by_httpx self m u s out = Inr c"
  using assms unfolding download_once_def
  by (auto split: prod.splits sum.splits simp: Let_def)

lemma download_once_never_shared:
  assumes "merged_kwargs request kw ''verify'' \<noteq> Some VNone"
    "c \<in> set (fst (snd (download_once self send s0 e0 request kw)))"
  shows "\<exists>p v cert. client_of c = Fresh p v cert \<and> v \<noteq> VNone"
proof -
  from assms(2) obtain t s m u out where
    p: "prepare_request self request kw = (t, Inr (s, m, u, out))"
    and d: "download_by_httpx self m u s out = Inr c"
    by (rule download_once_calls)
  from prepare_request_verify[OF p] assms(1) obtain v where
    v: "out ''verify'' = Some v" "v \<noteq> VNone"
    by (auto split: option.splits)
  from download_by_httpx_client[OF d] v show ?thesis by auto
qed

text \<open>
  C6.  The Downloader is built with the default \<^verbatim>\<open>use_session=True\<close> and without proxies;
  \<^verbatim>\<open>download\<close> dispatches a URL with no keyword arguments.  \<^verbatim>\<open>prepare_request\<close> sets
  \<^verbatim>\<open>verify\<close> to \<^verbatim>\<open>False\<close>, \<^verbatim>\<open>_download_by_httpx\<close> finds \<^verbatim>\<open>verify is not None\<close>, and the
  request is executed on a fresh client, not on the shared session.
\<close>

theorem download_default_bypasses_shared_session:
  "use_session ((Downloader_init VNone None (\<lambda>h. h))\<lparr>proxy_enable := False\<rparr>)
   \<and> map client_of (fst (snd (download_once
         ((Downloader_init VNone None (\<lambda>h. h))\<lparr>proxy_enable := False\<rparr>)
         (\<lambda>c. Inr \<lparr>content = 1, resp_truthy = True, meta = None, closed = False,
                    graper_exception = None\<rparr>)
         0 1 (Url ''http://a.com/x'') Map.empty)))
       = [Fresh VNone (VBool False) VNone]"
  by (simp add: download_once_def prepare_request_unfold pool_headers_def default_headers_def
      Downloader_init_def merged_kwargs_def merge_headers_def dict_update_def resolve_proxies_cases
      finish_request_def cookies_from_headers_def dict_get_def set_if_absent_apply parse_empty
      download_by_httpx_def Let_def)

text \<open>
  The request \<^verbatim>\<open>{"method": "GET"}\<close> given to a Downloader whose proxy pool has no proxy:
  \<^verbatim>\<open>prepare_request\<close> raises \<^verbatim>\<open>Exception("no valid proxy")\<close>, so each dispatch raises, and
  \<^verbatim>\<open>download\<close> raises \<^verbatim>\<open>AttributeError\<close>.
\<close>

lemma prepare_request_no_url_example:
  "snd (prepare_request (Downloader_init VNone None (\<lambda>h. h))
          (Structured [''method'' \<mapsto> VStr ''GET'']) Map.empty)
     = Inl (Exception ''no valid proxy'')"
  by (simp add: prepare_request_unfold pool_headers_def default_headers_def
      Downloader_init_def merged_kwargs_def merge_headers_def dict_update_def resolve_proxies_cases
      dict_get_def set_if_absent_apply Let_def)

theorem download_propagates_handler_exception_witness:
  "snd (prepare_request (Downloader_init VNone None (\<lambda>h. h))
          (Structured [''method'' \<mapsto> VStr ''GET'']) Map.empty)
     = Inl (Exception ''no valid proxy'')
   \<and> (\<forall>u. [''method'' \<mapsto> VStr ''GET''] ''url'' \<noteq> Some (VStr u))
   \<and> download (Downloader_init VNone None (\<lambda>h. h))
        (\<lambda>i r k. Inl (Exception ''no valid proxy''))
        (Structured [''method'' \<mapsto> VStr ''GET'']) Map.empty = Inl AttributeError"
proof -
  let ?dl = "\<lambda>(i::nat) (r::request) (k::kwargs). (Inl (Exception ''no valid proxy'') :: exn + response option)"
  let ?d = "[''method'' \<mapsto> VStr ''GET'']"
  have h1: "?dl 0 (Structured ?d) Map.empty = Inl (Exception ''no valid proxy'')" by simp
  have h2: "\<forall>u. ?d ''url'' \<noteq> Some (VStr u)" by simp
  from download_propagates_handler_exception[where dl="?dl" and d="?d" and kwargs=Map.empty
      and e="Exception ''no valid proxy''" and self="Downloader_init VNone None (\<lambda>h. h)", OF h1 h2]
  have r: "download (Downloader_init VNone None (\<lambda>h. h)) ?dl (Structured ?d) Map.empty
            = Inl AttributeError" .
  show ?thesis by (intro conjI prepare_request_no_url_example h2 r)
qed

section \<open>Properties of LimitRedisCookiePool\<close>


lemma zadd_single: "zadd z [(c, t)] = AList.update c t z"
  by (simp add: zadd_def)

lemma score_zadd_single: "map_of (zadd z [(c, t)]) = (map_of z)(c \<mapsto> t)"
  by (simp add: zadd_single update_conv')



lemma choice_in: "xs \<noteq> [] \<Longrightarrow> choice r xs \<in> set xs"
  by (simp add: choice_def)

lemma choice_any: "c \<in> set xs \<Longrightarrow> \<exists>r. choice r xs = c"
proof -
  assume "c \<in> set xs"
  then obtain i where "i < length xs" "xs ! i = c" by (auto simp: in_set_conv_nth)
  then have "choice i xs = c" by (simp add: choice_def)
  then show ?thesis ..
qed

lemma sleep_props:
  "zset (sleep s w) = zset w" "now (sleep s w) = now w + s" "lag (sleep s w) = lag w"
  "trace (sleep s w) = trace w @ [Sleep s]"
  by (simp_all add: sleep_def)

lemma wf_world_cong: "lag w' = lag w \<Longrightarrow> zset w' = zset w \<Longrightarrow> wf_world w' = wf_world w"
  by (simp add: wf_world_def)


lemma randint_range:
  assumes "0 \<le> wr"
  shows "\<exists>j. randint (- wr) wr r = Inr j \<and> - wr \<le> j \<and> j \<le> wr"
proof -
  have pos: "0 < wr - (- wr) + 1" using assms by simp
  have "0 \<le> int r mod (wr - (- wr) + 1)" "int r mod (wr - (- wr) + 1) < wr - (- wr) + 1"
    using pos by (rule pos_mod_sign, rule pos_mod_bound)
  then show ?thesis using assms unfolding randint_def by auto
qed


lemma time_time_eq:
  "time_time w = (t, w1) \<Longrightarrow>
     t = attempt_time w 0 \<and> now w1 = attempt_time w 0 \<and> lag w1 = drop 1 (lag w)
     \<and> zset w1 = zset w \<and> trace w1 = trace w"
  by (auto simp: time_time_def attempt_time_def split: list.splits)

lemma attempt_time_shift:
  "now w2 = attempt_time w 0 + 1 \<Longrightarrow> lag w2 = drop 1 (lag w) \<Longrightarrow>
     attempt_time w2 k = attempt_time w (Suc k)"
  by (cases "lag w") (simp_all add: attempt_time_def)

lemma sum_take_drop1:
  "sum_list (take 1 xs) + sum_list (take n (drop 1 xs)) = sum_list (take (Suc n) xs)"
  by (cases xs) simp_all

lemma failed_attempts_Cons:
  "failed_attempts L (t # ts) = [Query t (t - L) [], Sleep 1] @ failed_attempts L ts"
  by (simp add: failed_attempts_def)

lemma get_loop_clock:
  "get_loop L r n w = (res, w') \<Longrightarrow>
    \<exists>m. m \<le> n
      \<and> (\<forall>k<m. zrangebyscore (zset w) (attempt_time w k - L) = [])
      \<and> (res = None \<longrightarrow> m = n
            \<and> now w' = now w + sum_list (take n (lag w)) + real n
            \<and> lag w' = drop n (lag w)
            \<and> zset w' = zset w
            \<and> trace w' = trace w @ failed_attempts L (map (attempt_time w) [0..<n]))
      \<and> (\<forall>c. res = Some c \<longrightarrow> m < n
            \<and> zrangebyscore (zset w) (attempt_time w m - L) \<noteq> []
            \<and> c = choice r (zrangebyscore (zset w) (attempt_time w m - L))
            \<and> now w' = now w + sum_list (take (m + 2) (lag w)) + real m
            \<and> lag w' = drop (m + 2) (lag w)
            \<and> zset w' = zadd (zset w) [(c, now w')]
            \<and> trace w' = trace w @ failed_attempts L (map (attempt_time w) [0..<m])
                 @ [Query (attempt_time w m) (attempt_time w m - L)
                      (zrangebyscore (zset w) (attempt_time w m - L)),
                    Zadd [(c, now w')]])"
proof (induction n arbitrary: w)
  case 0
  then show ?case by (auto simp: failed_attempts_def)
next
  case (Suc n)
  obtain t w1 where tt: "time_time w = (t, w1)" by (cases "time_time w")
  from time_time_eq[OF tt] have p: "t = attempt_time w 0" "now w1 = attempt_time w 0"
    "lag w1 = drop 1 (lag w)" "zset w1 = zset w" "trace w1 = trace w" by blast+
  let ?cl = "zrangebyscore (zset w) (t - L)"
  let ?w2 = "w1\<lparr>trace := trace w1 @ [Query t (t - L) ?cl]\<rparr>"
  show ?case
  proof (cases "?cl = []")
    case True
    let ?w3 = "sleep 1 ?w2"
    from Suc.prems tt p(4) True have g: "get_loop L r n ?w3 = (res, w')"
      by (simp add: Let_def)
    have z3: "zset ?w3 = zset w" and n3: "now ?w3 = attempt_time w 0 + 1"
      and l3: "lag ?w3 = drop 1 (lag w)"
      and t3: "trace ?w3 = trace w @ [Query t (t - L) [], Sleep 1]"
      using p True by (simp_all add: sleep_def)
    have sh: "attempt_time ?w3 k = attempt_time w (Suc k)" for k
      using n3 l3 by (rule attempt_time_shift)
    from Suc.IH[OF g] obtain m where
      m: "m \<le> n"
      and em: "\<forall>k<m. zrangebyscore (zset ?w3) (attempt_time ?w3 k - L) = []"
      and no: "res = None \<longrightarrow> m = n
            \<and> now w' = now ?w3 + sum_list (take n (lag ?w3)) + real n
            \<and> lag w' = drop n (lag ?w3)
            \<and> zset w' = zset ?w3
            \<and> trace w' = trace ?w3 @ failed_attempts L (map (attempt_time ?w3) [0..<n])"
      and so: "\<forall>c. res = Some c \<longrightarrow> m < n
            \<and> zrangebyscore (zset ?w3) (attempt_time ?w3 m - L) \<noteq> []
            \<and> c = choice r (zrangebyscore (zset ?w3) (attempt_time ?w3 m - L))
            \<and> now w' = now ?w3 + sum_list (take (m + 2) (lag ?w3)) + real m
            \<and> lag w' = drop (m + 2) (lag ?w3)
            \<and> zset w' = zadd (zset ?w3) [(c, now w')]
            \<and> trace w' = trace ?w3 @ failed_attempts L (map (attempt_time ?w3) [0..<m])
                 @ [Query (attempt_time ?w3 m) (attempt_time ?w3 m - L)
                      (zrangebyscore (zset ?w3) (attempt_time ?w3 m - L)),
                    Zadd [(c, now w')]]"
      by blast
    have a0: "attempt_time w 0 = now w + sum_list (take 1 (lag w))"
      by (simp add: attempt_time_def)
    have nowk: "now ?w3 + sum_list (take k (lag ?w3)) + real j
                = now w + sum_list (take (Suc k) (lag w)) + real (Suc j)" for k j
      unfolding n3 l3 a0 using sum_take_drop1[of "lag w" k] by simp
    have mp: "map (attempt_time w) [0..<Suc k]
               = t # map (attempt_time ?w3) [0..<k]" for k
      unfolding map_upt_Suc using sh p(1) by simp
    have fa: "trace ?w3 @ failed_attempts L (map (attempt_time ?w3) [0..<k])
               = trace w @ failed_attempts L (map (attempt_time w) [0..<Suc k])" for k
      unfolding mp failed_attempts_Cons t3 by simp
    have em': "\<forall>k<Suc m. zrangebyscore (zset w) (attempt_time w k - L) = []"
    proof (intro allI impI)
      fix k assume k: "k < Suc m"
      show "zrangebyscore (zset w) (attempt_time w k - L) = []"
      proof (cases k)
        case 0
        then show ?thesis using True p(1) by simp
      next
        case (Suc k')
        with k have "k' < m" by simp
        with em have "zrangebyscore (zset ?w3) (attempt_time ?w3 k' - L) = []" by blast
        then show ?thesis unfolding z3 sh Suc .
      qed
    qed
    have no': "res = None \<longrightarrow> Suc m = Suc n
            \<and> now w' = now w + sum_list (take (Suc n) (lag w)) + real (Suc n)
            \<and> lag w' = drop (Suc n) (lag w)
            \<and> zset w' = zset w
            \<and> trace w' = trace w @ failed_attempts L (map (attempt_time w) [0..<Suc n])"
    proof
      assume "res = None"
      with no have n: "m = n"
            "now w' = now ?w3 + sum_list (take n (lag ?w3)) + real n"
            "lag w' = drop n (lag ?w3)"
            "zset w' = zset ?w3"
            "trace w' = trace ?w3 @ failed_attempts L (map (attempt_time ?w3) [0..<n])"
        by blast+
      have 1: "now w' = now w + sum_list (take (Suc n) (lag w)) + real (Suc n)"
        using n(2) nowk[of n n] by (rule trans)
      have 2: "lag w' = drop (Suc n) (lag w)" using n(3) l3 by simp
      have 3: "zset w' = zset w" using n(4) z3 by (rule trans)
      have 4: "trace w' = trace w @ failed_attempts L (map (attempt_time w) [0..<Suc n])"
        using n(5) fa[of n] by (rule trans)
      from n(1) 1 2 3 4 show "Suc m = Suc n
            \<and> now w' = now w + sum_list (take (Suc n) (lag w)) + real (Suc n)
            \<and> lag w' = drop (Suc n) (lag w)
            \<and> zset w' = zset w
            \<and> trace w' = trace w @ failed_attempts L (map (attempt_time w) [0..<Suc n])"
        by blast
    qed
    have so': "\<forall>c. res = Some c \<longrightarrow> Suc m < Suc n
            \<and> zrangebyscore (zset w) (attempt_time w (Suc m) - L) \<noteq> []
            \<and> c = choice r (zrangebyscore (zset w) (attempt_time w (Suc m) - L))
            \<and> now w' = now w + sum_list (take (Suc m + 2) (lag w)) + real (Suc m)
            \<and> lag w' = drop (Suc m + 2) (lag w)
            \<and> zset w' = zadd (zset w) [(c, now w')]
            \<and> trace w' = trace w @ failed_attempts L (map (attempt_time w) [0..<Suc m])
                 @ [Query (attempt_time w (Suc m)) (attempt_time w (Suc m) - L)
                      (zrangebyscore (zset w) (attempt_time w (Suc m) - L)),
                    Zadd [(c, now w')]]"
    proof (intro allI impI)
      fix c assume "res = Some c"
      with so have s: "m < n"
           "zrangebyscore (zset ?w3) (attempt_time ?w3 m - L) \<noteq> []"
           "c = choice r (zrangebyscore (zset ?w3) (attempt_time ?w3 m - L))"
           "now w' = now ?w3 + sum_list (take (m + 2) (lag ?w3)) + real m"
           "lag w' = drop (m + 2) (lag ?w3)"
           "zset w' = zadd (zset ?w3) [(c, now w')]"
           "trace w' = trace ?w3 @ failed_attempts L (map (attempt_time ?w3) [0..<m])
                 @ [Query (attempt_time ?w3 m) (attempt_time ?w3 m - L)
                      (zrangebyscore (zset ?w3) (attempt_time ?w3 m - L)),
                    Zadd [(c, now w')]]"
        by blast+
      have e: "zrangebyscore (zset ?w3) (attempt_time ?w3 m - L)
                 = zrangebyscore (zset w) (attempt_time w (Suc m) - L)"
        unfolding z3 sh ..
      have 1: "now w' = now w + sum_list (take (Suc m + 2) (lag w)) + real (Suc m)"
        using s(4) nowk[of "m + 2" m] by simp
      have 2: "lag w' = drop (Suc m + 2) (lag w)" using s(5) l3 by simp
      have 3: "zset w' = zadd (zset w) [(c, now w')]" using s(6) z3 by simp
      have tr0: "trace w' = (trace ?w3 @ failed_attempts L (map (attempt_time ?w3) [0..<m]))
                 @ [Query (attempt_time ?w3 m) (attempt_time ?w3 m - L)
                      (zrangebyscore (zset ?w3) (attempt_time ?w3 m - L)),
                    Zadd [(c, now w')]]"
        using s(7) by simp
      have tr: "trace w' = trace w @ failed_attempts L (map (attempt_time w) [0..<Suc m])
                 @ [Query (attempt_time w (Suc m)) (attempt_time w (Suc m) - L)
                      (zrangebyscore (zset w) (attempt_time w (Suc m) - L)),
                    Zadd [(c, now w')]]"
        using tr0 unfolding fa unfolding e unfolding sh by (simp only: append_assoc)
      from s(1) have 0: "Suc m < Suc n" by simp
      from s(2) have 5: "zrangebyscore (zset w) (attempt_time w (Suc m) - L) \<noteq> []"
        unfolding e .
      from s(3) have 6: "c = choice r (zrangebyscore (zset w) (attempt_time w (Suc m) - L))"
        unfolding e .
      from 0 5 6 1 2 3 tr
      show "Suc m < Suc n
            \<and> zrangebyscore (zset w) (attempt_time w (Suc m) - L) \<noteq> []
            \<and> c = choice r (zrangebyscore (zset w) (attempt_time w (Suc m) - L))
            \<and> now w' = now w + sum_list (take (Suc m + 2) (lag w)) + real (Suc m)
            \<and> lag w' = drop (Suc m + 2) (lag w)
            \<and> zset w' = zadd (zset w) [(c, now w')]
            \<and> trace w' = trace w @ failed_attempts L (map (attempt_time w) [0..<Suc m])
                 @ [Query (attempt_time w (Suc m)) (attempt_time w (Suc m) - L)
                      (zrangebyscore (zset w) (attempt_time w (Suc m) - L)),
                    Zadd [(c, now w')]]"
        by blast
    qed
    have "Suc m \<le> Suc n" using m by simp
    then show ?thesis using em' no' so' by blast
  next
    case False
    obtain t2 w3 where tt2: "time_time ?w2 = (t2, w3)" by (cases "time_time ?w2")
    from time_time_eq[OF tt2] have q: "t2 = attempt_time ?w2 0" "now w3 = attempt_time ?w2 0"
      "lag w3 = drop 1 (lag ?w2)" "zset w3 = zset ?w2" "trace w3 = trace ?w2" by blast+
    from Suc.prems tt p(4) False tt2 have
      res: "res = Some (choice r ?cl)"
      and w': "w' = w3\<lparr>zset := zadd (zset w3) [(choice r ?cl, t2)],
                      trace := trace w3 @ [Zadd [(choice r ?cl, t2)]]\<rparr>"
      by (simp_all add: Let_def)
    have nw: "now w' = t2" using w' q by simp
    have t2e: "t2 = now w + sum_list (take 2 (lag w))"
      unfolding q(1) using p(2,3)
      by (cases "lag w") (simp_all add: attempt_time_def numeral_2_eq_2)
    have lg: "lag w' = drop 2 (lag w)" using w' q(3) p(3) by (simp add: numeral_2_eq_2)
    have zs: "zset w' = zadd (zset w) [(choice r ?cl, now w')]" using w' q p nw by simp
    have tr: "trace w' = trace w @ failed_attempts L (map (attempt_time w) [0..<0])
                 @ [Query t (t - L) ?cl, Zadd [(choice r ?cl, now w')]]"
      using w' q p nw by (simp add: failed_attempts_def)
    show ?thesis
      apply (rule exI[of _ 0])
      using res False nw t2e lg zs tr unfolding p(1) by (simp add: numeral_2_eq_2)
  qed
qed

lemma randint_any:
  assumes "- wr \<le> j" "j \<le> wr"
  shows "\<exists>r. randint (- wr) wr r = Inr j"
proof -
  have b: "0 \<le> j + wr" "j + wr < wr - (- wr) + 1" using assms by simp_all
  have "int (nat (j + wr)) mod (wr - (- wr) + 1) = j + wr"
    using b by simp
  then have "randint (- wr) wr (nat (j + wr)) = Inr j"
    using assms unfolding randint_def by simp
  then show ?thesis ..
qed

lemma get_jitter:
  assumes "0 \<le> with_random self"
  shows "\<exists>j. (if with_random self = 0 then j = 0
              else randint (- with_random self) (with_random self) r1 = Inr j)
          \<and> - with_random self \<le> j \<and> j \<le> with_random self
          \<and> get self retry r1 r2 w
              = Inr (get_loop (real_of_int (limit self + j)) r2 (nat retry) w)"
proof (cases "with_random self = 0")
  case True
  then show ?thesis by (intro exI[of _ 0]) (simp add: get_def)
next
  case False
  from randint_range[OF assms, of r1] obtain j where
    "randint (- with_random self) (with_random self) r1 = Inr j"
    "- with_random self \<le> j" "j \<le> with_random self" by blast
  with False show ?thesis by (intro exI[of _ j]) (simp add: get_def)
qed

text \<open>
  C3.  With \<^verbatim>\<open>with_random >= 0\<close> (as the constructor asserts), \<^verbatim>\<open>get(retry)\<close> returns.
  The jitter \<open>j\<close> is sampled once: it is the value of \<^verbatim>\<open>randint(-with_random, with_random)\<close>
  for this call (\<open>0\<close> when \<^verbatim>\<open>with_random\<close> is \<open>0\<close>, where nothing is sampled), and
  \<^verbatim>\<open>limit + j\<close> is the effective limit of every attempt of the call.  The call makes \<open>m\<close>
  attempts without candidate, at most \<^verbatim>\<open>retry\<close>: attempt \<open>k\<close> is made at the clock reading
  \<open>attempt_time w k\<close>, queries the members scored at most that reading minus the effective
  limit, gets an empty reply and sleeps one second.  Then either \<open>m\<close> is \<^verbatim>\<open>retry\<close>, nothing
  more happens, the result is \<^verbatim>\<open>None\<close> and the set is unchanged; or \<open>m\<close> is less than
  \<^verbatim>\<open>retry\<close> and attempt \<open>m\<close> gets a non-empty reply, of which one member is chosen, its
  score set by one \<^verbatim>\<open>ZADD\<close> to the next clock reading, and returned.  Every jitter between
  \<^verbatim>\<open>-with_random\<close> and \<^verbatim>\<open>with_random\<close> can be the one sampled, and every member of a reply
  can be the one chosen.  (That the two samples are uniform is a property of \<^verbatim>\<open>random\<close>,
  outside this development.)
\<close>

theorem get_attempts:
  "(0 \<le> with_random self \<longrightarrow>
     (\<exists>j res w' m.
          (if with_random self = 0 then j = 0
           else randint (- with_random self) (with_random self) r1 = Inr j)
        \<and> - with_random self \<le> j \<and> j \<le> with_random self
        \<and> get self retry r1 r2 w = Inr (res, w')
        \<and> m \<le> nat retry
        \<and> (\<forall>k<m. zrangebyscore (zset w)
                     (attempt_time w k - real_of_int (limit self + j)) = [])
        \<and> (res = None \<longrightarrow> m = nat retry \<and> zset w' = zset w
              \<and> now w' = now w + sum_list (take m (lag w)) + real m
              \<and> trace w' = trace w
                   @ failed_attempts (real_of_int (limit self + j))
                       (map (attempt_time w) [0..<m]))
        \<and> (\<forall>c. res = Some c \<longrightarrow> m < nat retry
              \<and> (\<exists>reply. reply = zrangebyscore (zset w)
                                   (attempt_time w m - real_of_int (limit self + j))
                   \<and> c \<in> set reply \<and> c = choice r2 reply
                   \<and> trace w' = trace w
                        @ failed_attempts (real_of_int (limit self + j))
                            (map (attempt_time w) [0..<m])
                        @ [Query (attempt_time w m)
                             (attempt_time w m - real_of_int (limit self + j)) reply,
                           Zadd [(c, now w')]]
                   \<and> now w' = now w + sum_list (take (m + 2) (lag w)) + real m
                   \<and> zset w' = zadd (zset w) [(c, now w')]
                   \<and> score w' c = Some (now w')))))
   \<and> (\<forall>j. - with_random self \<le> j \<and> j \<le> with_random self \<longrightarrow>
          (\<exists>r. randint (- with_random self) (with_random self) r = Inr j))
   \<and> (\<forall>c \<in> set xs. \<exists>r. choice r xs = c)"
proof (intro conjI impI ballI allI)
  assume wr: "0 \<le> with_random self"
  from get_jitter[OF wr, of r1 retry r2 w] obtain j where
    j: "if with_random self = 0 then j = 0
        else randint (- with_random self) (with_random self) r1 = Inr j"
      "- with_random self \<le> j" "j \<le> with_random self"
    and g: "get self retry r1 r2 w
              = Inr (get_loop (real_of_int (limit self + j)) r2 (nat retry) w)"
    by blast
  let ?L = "real_of_int (limit self + j)"
  obtain res w' where gl: "get_loop ?L r2 (nat retry) w = (res, w')"
    by (cases "get_loop ?L r2 (nat retry) w")
  from get_loop_clock[OF gl] obtain m where
    m: "m \<le> nat retry"
    and em: "\<forall>k<m. zrangebyscore (zset w) (attempt_time w k - ?L) = []"
    and no: "res = None \<longrightarrow> m = nat retry
            \<and> now w' = now w + sum_list (take (nat retry) (lag w)) + real (nat retry)
            \<and> lag w' = drop (nat retry) (lag w)
            \<and> zset w' = zset w
            \<and> trace w' = trace w @ failed_attempts ?L (map (attempt_time w) [0..<nat retry])"
    and so: "\<forall>c. res = Some c \<longrightarrow> m < nat retry
            \<and> zrangebyscore (zset w) (attempt_time w m - ?L) \<noteq> []
            \<and> c = choice r2 (zrangebyscore (zset w) (attempt_time w m - ?L))
            \<and> now w' = now w + sum_list (take (m + 2) (lag w)) + real m
            \<and> lag w' = drop (m + 2) (lag w)
            \<and> zset w' = zadd (zset w) [(c, now w')]
            \<and> trace w' = trace w @ failed_attempts ?L (map (attempt_time w) [0..<m])
                 @ [Query (attempt_time w m) (attempt_time w m - ?L)
                      (zrangebyscore (zset w) (attempt_time w m - ?L)),
                    Zadd [(c, now w')]]"
    by blast
  have no': "res = None \<longrightarrow> m = nat retry \<and> zset w' = zset w
              \<and> now w' = now w + sum_list (take m (lag w)) + real m
              \<and> trace w' = trace w @ failed_attempts ?L (map (attempt_time w) [0..<m])"
    using no by auto
  have so': "\<forall>c. res = Some c \<longrightarrow> m < nat retry
              \<and> (\<exists>reply. reply = zrangebyscore (zset w) (attempt_time w m - ?L)
                   \<and> c \<in> set reply \<and> c = choice r2 reply
                   \<and> trace w' = trace w
                        @ failed_attempts ?L (map (attempt_time w) [0..<m])
                        @ [Query (attempt_time w m) (attempt_time w m - ?L) reply,
                           Zadd [(c, now w')]]
                   \<and> now w' = now w + sum_list (take (m + 2) (lag w)) + real m
                   \<and> zset w' = zadd (zset w) [(c, now w')]
                   \<and> score w' c = Some (now w'))"
  proof (intro allI impI)
    fix c assume "res = Some c"
    with so have s: "m < nat retry"
        "zrangebyscore (zset w) (attempt_time w m - ?L) \<noteq> []"
        "c = choice r2 (zrangebyscore (zset w) (attempt_time w m - ?L))"
        "now w' = now w + sum_list (take (m + 2) (lag w)) + real m"
        "zset w' = zadd (zset w) [(c, now w')]"
        "trace w' = trace w @ failed_attempts ?L (map (attempt_time w) [0..<m])
                 @ [Query (attempt_time w m) (attempt_time w m - ?L)
                      (zrangebyscore (zset w) (attempt_time w m - ?L)),
                    Zadd [(c, now w')]]"
      by blast+
    have cin: "c \<in> set (zrangebyscore (zset w) (attempt_time w m - ?L))"
      using choice_in[OF s(2), of r2] s(3) by simp
    have sc: "score w' c = Some (now w')"
      using s(5) by (simp add: score_def score_zadd_single)
    show "m < nat retry
              \<and> (\<exists>reply. reply = zrangebyscore (zset w) (attempt_time w m - ?L)
                   \<and> c \<in> set reply \<and> c = choice r2 reply
                   \<and> trace w' = trace w
                        @ failed_attempts ?L (map (attempt_time w) [0..<m])
                        @ [Query (attempt_time w m) (attempt_time w m - ?L) reply,
                           Zadd [(c, now w')]]
                   \<and> now w' = now w + sum_list (take (m + 2) (lag w)) + real m
                   \<and> zset w' = zadd (zset w) [(c, now w')]
                   \<and> score w' c = Some (now w'))"
      using s(1,3,4,5,6) cin sc by blast
  qed
  have gg: "get self retry r1 r2 w = Inr (res, w')" using g gl by simp
  show "\<exists>j res w' m.
          (if with_random self = 0 then j = 0
           else randint (- with_random self) (with_random self) r1 = Inr j)
        \<and> - with_random self \<le> j \<and> j \<le> with_random self
        \<and> get self retry r1 r2 w = Inr (res, w')
        \<and> m \<le> nat retry
        \<and> (\<forall>k<m. zrangebyscore (zset w)
                     (attempt_time w k - real_of_int (limit self + j)) = [])
        \<and> (res = None \<longrightarrow> m = nat retry \<and> zset w' = zset w
              \<and> now w' = now w + sum_list (take m (lag w)) + real m
              \<and> trace w' = trace w
                   @ failed_attempts (real_of_int (limit self + j))
                       (map (attempt_time w) [0..<m]))
        \<and> (\<forall>c. res = Some c \<longrightarrow> m < nat retry
              \<and> (\<exists>reply. reply = zrangebyscore (zset w)
                                   (attempt_time w m - real_of_int (limit self + j))
                   \<and> c \<in> set reply \<and> c = choice r2 reply
                   \<and> trace w' = trace w
                        @ failed_attempts (real_of_int (limit self + j))
                            (map (attempt_time w) [0..<m])
                        @ [Query (attempt_time w m)
                             (attempt_time w m - real_of_int (limit self + j)) reply,
                           Zadd [(c, now w')]]
                   \<and> now w' = now w + sum_list (take (m + 2) (lag w)) + real m
                   \<and> zset w' = zadd (zset w) [(c, now w')]
                   \<and> score w' c = Some (now w')))"
    apply (rule exI[of _ j], rule exI[of _ res], rule exI[of _ w'], rule exI[of _ m])
    apply (intro conjI)
           apply (rule j(1))
          apply (rule j(2))
         apply (rule j(3))
        apply (rule gg)
       apply (rule m)
      apply (rule em)
     apply (rule no')
    apply (rule so')
    done
next
  fix j assume "- with_random self \<le> j \<and> j \<le> with_random self"
  then show "\<exists>r. randint (- with_random self) (with_random self) r = Inr j"
    using randint_any by blast
next
  fix c assume "c \<in> set xs"
  then show "\<exists>r. choice r xs = c" by (rule choice_any)
qed

lemma get_jitter_example:
  "get \<lparr>cookie_key = ''LimitRedisCookiePool:app'', limit = 2, with_random = 1\<rparr> 3 0 0
      \<lparr>now = 0, lag = [1/2, 0, 0], zset = [(''c'', 0)], trace = []\<rparr>
   = Inr (Some ''c'',
        \<lparr>now = 3/2, lag = [], zset = [(''c'', 3/2)],
         trace = [Query (1/2) (-1/2) [], Sleep 1, Query (3/2) (1/2) [''c''],
                  Zadd [(''c'', 3/2)]]\<rparr>)"
  by (simp add: get_def randint_def time_time_def zrangebyscore_def choice_def zadd_def
      sleep_def numeral_3_eq_3 Let_def)

theorem get_attempts_witness:
  "0 \<le> with_random \<lparr>cookie_key = ''LimitRedisCookiePool:app'', limit = 2, with_random = 1\<rparr>
   \<and> randint (- 1) 1 0 = Inr (- 1)
   \<and> get \<lparr>cookie_key = ''LimitRedisCookiePool:app'', limit = 2, with_random = 1\<rparr> 3 0 0
        \<lparr>now = 0, lag = [1/2, 0, 0], zset = [(''c'', 0)], trace = []\<rparr>
      = Inr (Some ''c'',
          \<lparr>now = 3/2, lag = [], zset = [(''c'', 3/2)],
           trace = [Query (1/2) (-1/2) [], Sleep 1, Query (3/2) (1/2) [''c''],
                    Zadd [(''c'', 3/2)]]\<rparr>)
   \<and> (\<exists>m reply. m < 3
         \<and> [Query (1/2) (-1/2) [], Sleep 1, Query (3/2) (1/2) [''c''], Zadd [(''c'', 3/2)]]
           = failed_attempts 1
               (map (attempt_time \<lparr>now = 0, lag = [1/2, 0, 0], zset = [(''c'', 0)],
                                    trace = []\<rparr>) [0..<m])
             @ [Query (attempt_time \<lparr>now = 0, lag = [1/2, 0, 0], zset = [(''c'', 0)],
                                     trace = []\<rparr> m)
                  (attempt_time \<lparr>now = 0, lag = [1/2, 0, 0], zset = [(''c'', 0)],
                                 trace = []\<rparr> m - 1) reply,
                Zadd [(''c'', 3/2)]]
         \<and> ''c'' \<in> set reply)
   \<and> (\<exists>r. randint (- 1) 1 r = Inr 1)
   \<and> ''b'' \<in> set [''a'', ''b''] \<and> (\<exists>r. choice r [''a'', ''b''] = ''b'')"
proof -
  define P where "P = \<lparr>cookie_key = ''LimitRedisCookiePool:app'', limit = 2, with_random = 1\<rparr>"
  define W where "W = \<lparr>now = 0, lag = [1/2, 0, 0], zset = [(''c'', 0)], trace = []\<rparr>"
  define W' where "W' = \<lparr>now = 3/2, lag = [], zset = [(''c'', 3/2)],
           trace = [Query (1/2) (-1/2) [], Sleep 1, Query (3/2) (1/2) [''c''],
                    Zadd [(''c'', 3/2)]]\<rparr>"
  define c where "c = ''c''"
  define xs where "xs = [''a'', ''b'']"
  define b where "b = ''b''"
  have h: "0 \<le> with_random P" by (simp add: P_def)
  have wr1: "with_random P = 1" and lim: "limit P = 2" by (simp_all add: P_def)
  have hb: "b \<in> set xs" by (simp add: xs_def b_def)
  have rj: "randint (- 1) 1 0 = Inr (- 1)" by (simp add: randint_def)
  have ex: "get P 3 0 0 W = Inr (Some c, W')"
    unfolding P_def W_def W'_def c_def by (rule get_jitter_example)
  have trW: "trace W = []" by (simp add: W_def)
  have nW': "now W' = 3/2" by (simp add: W'_def)
  note T = get_attempts[of P 0 3 0 W xs]
  note E = T[THEN conjunct1, THEN mp, OF h]
  obtain j res w' m where
    j0: "if with_random P = 0 then j = 0
         else randint (- with_random P) (with_random P) 0 = Inr j"
    and g: "get P 3 0 0 W = Inr (res, w')"
    and so: "\<forall>c. res = Some c \<longrightarrow> m < nat 3
              \<and> (\<exists>reply. reply = zrangebyscore (zset W)
                                   (attempt_time W m - real_of_int (limit P + j))
                   \<and> c \<in> set reply \<and> c = choice 0 reply
                   \<and> trace w' = trace W
                        @ failed_attempts (real_of_int (limit P + j))
                            (map (attempt_time W) [0..<m])
                        @ [Query (attempt_time W m)
                             (attempt_time W m - real_of_int (limit P + j)) reply,
                           Zadd [(c, now w')]]
                   \<and> now w' = now W + sum_list (take (m + 2) (lag W)) + real m
                   \<and> zset w' = zadd (zset W) [(c, now w')]
                   \<and> score w' c = Some (now w'))"
    using E apply -
    apply (erule exE)+
    apply (erule conjE)+
    apply (rule that; assumption)
    done
  from j0 wr1 rj have j: "j = - 1" by simp
  from g ex have res: "res = Some c" and w': "w' = W'" by simp_all
  from so[rule_format, OF res] obtain reply where l: "m < nat 3"
    and cin: "c \<in> set reply"
    and tr: "trace w' = trace W
                        @ failed_attempts (real_of_int (limit P + j))
                            (map (attempt_time W) [0..<m])
                        @ [Query (attempt_time W m)
                             (attempt_time W m - real_of_int (limit P + j)) reply,
                           Zadd [(c, now w')]]"
    by (elim conjE exE) (rule that; assumption)
  have L: "real_of_int (limit P + j) = 1" by (simp add: lim j)
  have tr2: "trace W' = failed_attempts 1 (map (attempt_time W) [0..<m])
               @ [Query (attempt_time W m) (attempt_time W m - 1) reply, Zadd [(c, 3/2)]]"
    using tr unfolding w' L trW nW' by simp
  have l3: "m < 3" using l by simp
  have r3: "\<exists>m reply. m < 3
         \<and> trace W' = failed_attempts 1 (map (attempt_time W) [0..<m])
               @ [Query (attempt_time W m) (attempt_time W m - 1) reply, Zadd [(c, 3/2)]]
         \<and> c \<in> set reply"
    by (intro exI conjI) (rule l3, rule tr2, rule cin)
  have hj: "- with_random P \<le> 1 \<and> 1 \<le> with_random P" by (simp add: wr1)
  from T[THEN conjunct2, THEN conjunct1, rule_format, OF hj]
  have r5: "\<exists>r. randint (- 1) 1 r = Inr 1" unfolding wr1 .
  from T[THEN conjunct2, THEN conjunct2, rule_format, OF hb] have r4: "\<exists>r. choice r xs = b" .
  have main: "0 \<le> with_random P \<and> randint (- 1) 1 0 = Inr (- 1)
     \<and> get P 3 0 0 W = Inr (Some c, W')
     \<and> (\<exists>m reply. m < 3
         \<and> trace W' = failed_attempts 1 (map (attempt_time W) [0..<m])
               @ [Query (attempt_time W m) (attempt_time W m - 1) reply, Zadd [(c, 3/2)]]
         \<and> c \<in> set reply)
     \<and> (\<exists>r. randint (- 1) 1 r = Inr 1)
     \<and> b \<in> set xs \<and> (\<exists>r. choice r xs = b)"
    by (intro conjI h rj ex r3 r5 hb r4)
  have trW': "trace W' = [Query (1/2) (-1/2) [], Sleep 1, Query (3/2) (1/2) [''c''],
                    Zadd [(''c'', 3/2)]]" by (simp add: W'_def)
  from main show ?thesis
    unfolding trW' unfolding P_def W_def W'_def c_def xs_def b_def .
qed


























end
